theory Spec2Isabelle
  imports Complex_Main
begin

section \<open>Numbers\<close>

text \<open>
  The program computes with JavaScript numbers (IEEE-754 doubles). A finite double is
  modelled by the real number it stands for: rounding is idealised, so every statement
  below is about exact arithmetic. The one operation of the modelled code that can give
  a non-finite result from finite operands is the division \<open>extension / handSize\<close> of
  \<open>predictWebcam\<close>; the values that may be non-finite there have the type \<open>jsnum\<close>,
  whose operations write out the IEEE rules for infinities and NaN. Every zero divisor of
  the modelled code is the result of \<open>Math.sqrt\<close>, hence \<open>+0\<close>: the sign of zero is not
  modelled.
\<close>

datatype jsnum = Num real | PosInf | NegInf | NaN

text \<open>The JavaScript operator \<open>a - b\<close>.\<close>

fun js_sub :: "jsnum \<Rightarrow> jsnum \<Rightarrow> jsnum" where
  "js_sub NaN b = NaN"
| "js_sub a NaN = NaN"
| "js_sub (Num a) (Num b) = Num (a - b)"
| "js_sub (Num a) PosInf = NegInf"
| "js_sub (Num a) NegInf = PosInf"
| "js_sub PosInf PosInf = NaN"
| "js_sub PosInf b = PosInf"
| "js_sub NegInf NegInf = NaN"
| "js_sub NegInf b = NegInf"

text \<open>The JavaScript operator \<open>a / b\<close> (a zero divisor is \<open>+0\<close>).\<close>

fun js_div :: "jsnum \<Rightarrow> jsnum \<Rightarrow> jsnum" where
  "js_div NaN b = NaN"
| "js_div a NaN = NaN"
| "js_div (Num a) (Num b) =
     (if b \<noteq> 0 then Num (a / b)
      else if a = 0 then NaN
      else if 0 < a then PosInf else NegInf)"
| "js_div (Num a) b = Num 0"
| "js_div PosInf (Num b) = (if 0 \<le> b then PosInf else NegInf)"
| "js_div NegInf (Num b) = (if 0 \<le> b then NegInf else PosInf)"
| "js_div a b = NaN"

text \<open>\<open>Math.min(a, b)\<close> and \<open>Math.max(a, b)\<close>: NaN when either argument is NaN.\<close>

fun js_min :: "jsnum \<Rightarrow> jsnum \<Rightarrow> jsnum" where
  "js_min NaN b = NaN"
| "js_min a NaN = NaN"
| "js_min NegInf b = NegInf"
| "js_min a NegInf = NegInf"
| "js_min PosInf b = b"
| "js_min a PosInf = a"
| "js_min (Num a) (Num b) = Num (min a b)"

fun js_max :: "jsnum \<Rightarrow> jsnum \<Rightarrow> jsnum" where
  "js_max NaN b = NaN"
| "js_max a NaN = NaN"
| "js_max PosInf b = PosInf"
| "js_max a PosInf = PosInf"
| "js_max NegInf b = b"
| "js_max a NegInf = a"
| "js_max (Num a) (Num b) = Num (max a b)"

fun isFinite :: "jsnum \<Rightarrow> bool" where
  "isFinite (Num a) = True"
| "isFinite a = False"

section \<open>HandController.tsx: the hand-pose derivation\<close>

text \<open>A landmark of the hand detector (\<open>NormalizedLandmark\<close>); the code reads x and y.\<close>

record landmark =
  lm_x :: real
  lm_y :: real
  lm_z :: real

text \<open>\<open>interface HandControlData\<close>, the argument of \<open>onUpdate\<close>.\<close>

record handControlData =
  hc_compression :: jsnum
  hc_x :: real
  hc_y :: real
  isTracking :: bool

text \<open>
  Reading a property of \<open>undefined\<close> throws: \<open>landmarks[12]\<close> is undefined when the
  detected hand has fewer than 13 landmarks, and \<open>onUpdate\<close> is then never called.
\<close>

datatype js_error = TypeError

text \<open>\<open>Math.sqrt(Math.pow(b.x - a.x, 2) + Math.pow(b.y - a.y, 2))\<close>, lines 77-83.\<close>

definition dist2d :: "landmark \<Rightarrow> landmark \<Rightarrow> real" where
  "dist2d b a = sqrt ((lm_x b - lm_x a)\<^sup>2 + (lm_y b - lm_y a)\<^sup>2)"

text \<open>
  Line 91: \<open>1 - Math.max(0, Math.min(1, (ratio - 0.9) / 0.8))\<close>.
\<close>

definition compressionOfRatio :: "jsnum \<Rightarrow> jsnum" where
  "compressionOfRatio ratio =
     js_sub (Num 1) (js_max (Num 0) (js_min (Num 1) (js_div (js_sub ratio (Num 0.9)) (Num 0.8))))"

text \<open>
  The body of \<open>predictWebcam\<close> after \<open>detectForVideo\<close> (lines 68-109): from
  \<open>results.landmarks\<close> (absent, or the list of detected hands) to the argument of
  \<open>onUpdate\<close>.
\<close>

definition predictWebcam :: "landmark list list option \<Rightarrow> js_error + handControlData" where
  "predictWebcam results_landmarks =
     (case results_landmarks of
        None \<Rightarrow> Inr \<lparr>hc_compression = Num 0, hc_x = 0, hc_y = 0, isTracking = False\<rparr>
      | Some hands \<Rightarrow>
          if length hands > 0 then
            (let landmarks = hands ! 0 in
             if length landmarks \<le> 12 then Inl TypeError
             else
               let wrist = landmarks ! 0;
                   middleTip = landmarks ! 12;
                   middleMcp = landmarks ! 9;
                   handSize = dist2d middleMcp wrist;
                   extension = dist2d middleTip wrist;
                   ratio = js_div (Num extension) (Num handSize);
                   compression = compressionOfRatio ratio;
                   x = (1 - lm_x (landmarks ! 9)) * 2 - 1;
                   y = - (lm_y (landmarks ! 9) * 2 - 1)
               in Inr \<lparr>hc_compression = compression, hc_x = x, hc_y = y, isTracking = True\<rparr>)
          else Inr \<lparr>hc_compression = Num 0, hc_x = 0, hc_y = 0, isTracking = False\<rparr>)"

section \<open>Scene3D.tsx: the shared control cell\<close>

text \<open>\<open>controlRef.current\<close> (\<open>interface FoldControlData\<close>).\<close>

record foldControlData =
  fc_compression :: jsnum
  fc_tiltX :: real
  fc_tiltY :: real

definition controlRef_init :: foldControlData where
  "controlRef_init = \<lparr>fc_compression = Num 0, fc_tiltX = 0, fc_tiltY = 0\<rparr>"

definition handleHandUpdate :: "handControlData \<Rightarrow> foldControlData \<Rightarrow> foldControlData" where
  "handleHandUpdate data controlRef =
     (if isTracking data then
        controlRef\<lparr>fc_compression := hc_compression data,
                   fc_tiltX := hc_x data,
                   fc_tiltY := hc_y data\<rparr>
      else
        controlRef\<lparr>fc_compression := Num 0, fc_tiltX := 0, fc_tiltY := 0\<rparr>)"

section \<open>FoldStrip.tsx: control fusion and fold geometry\<close>

text \<open>
  \<open>THREE.MathUtils.lerp(x, y, t)\<close> of the three.js library: \<open>(1 - t) * x + t * y\<close>.
\<close>

definition lerp :: "real \<Rightarrow> real \<Rightarrow> real \<Rightarrow> real" where
  "lerp x y t = (1 - t) * x + t * y"

text \<open>\<open>currentStats.current\<close>, the smoothed control state (line 41).\<close>

record stats =
  cs_compression :: real
  cs_tiltX :: real
  cs_tiltY :: real

definition currentStats_init :: stats where
  "currentStats_init = \<lparr>cs_compression = 0, cs_tiltX = 0, cs_tiltY = 0\<rparr>"

text \<open>Lines 56-58: one smoothing step towards the targets.\<close>

definition smooth :: "stats \<Rightarrow> real \<Rightarrow> real \<Rightarrow> real \<Rightarrow> stats" where
  "smooth cur targetCompression targetTiltX targetTiltY =
     \<lparr>cs_compression = lerp (cs_compression cur) targetCompression 0.1,
      cs_tiltX = lerp (cs_tiltX cur) targetTiltX 0.05,
      cs_tiltY = lerp (cs_tiltY cur) targetTiltY 0.05\<rparr>"

text \<open>Line 67: \<open>Math.abs(pointer.x)\<close>; line 70: \<open>Math.max(..., mouseCompression)\<close>.\<close>

definition mouseCompression :: "real \<Rightarrow> real" where
  "mouseCompression pointer_x = \<bar>pointer_x\<bar>"

definition effectiveCompression :: "real \<Rightarrow> real \<Rightarrow> real" where
  "effectiveCompression smoothedCompression pointer_x =
     max smoothedCompression (mouseCompression pointer_x)"

text \<open>
  Lines 51-70 of the frame callback. The target compression is read from the control
  cell; when it is not finite the smoothed compression is not finite from this frame
  on (NaN and the infinities are absorbing for \<open>lerp\<close>), which the real-valued model
  does not follow: the result is then \<open>None\<close>.
\<close>

definition fusion :: "stats \<Rightarrow> foldControlData \<Rightarrow> real \<Rightarrow> (stats \<times> real) option" where
  "fusion cur controlRef pointer_x =
     (case fc_compression controlRef of
        Num targetCompression \<Rightarrow>
          (let cur' = smooth cur targetCompression (fc_tiltX controlRef) (fc_tiltY controlRef)
           in Some (cur', effectiveCompression (cs_compression cur') pointer_x))
      | _ \<Rightarrow> None)"

text \<open>
  The smoothing part of \<open>n\<close> consecutive frames, the control cell and the pointer
  unchanged between them: the render loop calls the frame callback once per frame.
\<close>

fun fusionRun :: "nat \<Rightarrow> stats \<Rightarrow> foldControlData \<Rightarrow> real \<Rightarrow> stats option" where
  "fusionRun 0 cur controlRef pointer_x = Some cur"
| "fusionRun (Suc n) cur controlRef pointer_x =
     (case fusion cur controlRef pointer_x of
        None \<Rightarrow> None
      | Some (cur', eff) \<Rightarrow> fusionRun n cur' controlRef pointer_x)"

text \<open>Lines 80-90: the locals of the strip loop.\<close>

definition dir :: "nat \<Rightarrow> real" where
  "dir i = (if i mod 2 = 0 then 1 else - 1)"

definition wave :: "real \<Rightarrow> nat \<Rightarrow> real" where
  "wave time i = sin (time * 1.5 + real i * 0.3) * 0.15"

definition baseAngle :: "real \<Rightarrow> real \<Rightarrow> nat \<Rightarrow> real" where
  "baseAngle eff time i = eff * 1.3 + wave time i * 0.1"

definition angle :: "real \<Rightarrow> real \<Rightarrow> real \<Rightarrow> nat \<Rightarrow> real" where
  "angle eff noise time i =
     dir i * min (pi / 2.05) (baseAngle eff time i + noise * 0.1 * eff)"

text \<open>The accumulators of the strip loop (lines 75-77).\<close>

record walk =
  currentX :: real
  xPositions :: "real list"
  zPositions :: "real list"

definition walk_init :: walk where
  "walk_init = \<lparr>currentX = 0, xPositions = [0], zPositions = [0]\<rparr>"

text \<open>
  Lines 79-98: \<open>for (let i = 0; i < strips; i++)\<close>, from the index \<open>i\<close> on. The
  noise table has \<open>strips\<close> entries (line 37), so \<open>noiseOffsets[i]\<close> is in range.
\<close>

function stripLoop :: "real list \<Rightarrow> real \<Rightarrow> real \<Rightarrow> real \<Rightarrow> nat \<Rightarrow> nat \<Rightarrow> walk \<Rightarrow> walk" where
  "stripLoop noiseOffsets time eff segWidth strips i w =
     (if i < strips then
        (let noise = noiseOffsets ! i;
             a = angle eff noise time i;
             dx = segWidth * cos a;
             dz = segWidth * sin a
         in stripLoop noiseOffsets time eff segWidth strips (i + 1)
              \<lparr>currentX = currentX w + dx,
               xPositions = xPositions w @ [currentX w + dx],
               zPositions = zPositions w @ [last (zPositions w) + dz]\<rparr>)
      else w)"
  by pat_completeness auto
termination
  by (relation "measure (\<lambda>(noiseOffsets, time, eff, segWidth, strips, i, w). strips - i)") auto

declare stripLoop.simps [simp del]

text \<open>
  The position attribute: one (x, y, z) triple per vertex. \<open>setXYZ\<close> writes into a
  typed array, where a write out of range does nothing.
\<close>

type_synonym vertex = "real \<times> real \<times> real"

definition setXYZ :: "vertex list \<Rightarrow> nat \<Rightarrow> real \<Rightarrow> real \<Rightarrow> real \<Rightarrow> vertex list" where
  "setXYZ positionAttribute index x y z =
     (if index < length positionAttribute then positionAttribute[index := (x, y, z)]
      else positionAttribute)"

text \<open>
  \<open>new THREE.PlaneGeometry(width, height, strips, 1)\<close> (line 31) of the three.js
  library: two rows of \<open>strips + 1\<close> vertices, the top row first.
\<close>

definition planeGeometry :: "real \<Rightarrow> real \<Rightarrow> nat \<Rightarrow> vertex list" where
  "planeGeometry width height strips =
     concat (map (\<lambda>iy. map (\<lambda>ix. (real ix * (width / real strips) - width / 2,
                                   - (real iy * (height / 1) - height / 2), 0))
                          [0..<strips + 1])
                 [0..<2])"

text \<open>Lines 103-109: \<open>for (let i = 0; i <= strips; i++)\<close>, from the index \<open>i\<close> on.\<close>

function writeLoop :: "walk \<Rightarrow> real \<Rightarrow> real \<Rightarrow> nat \<Rightarrow> nat \<Rightarrow> vertex list \<Rightarrow> vertex list" where
  "writeLoop w offsetX height strips i positionAttribute =
     (if i \<le> strips then
        (let x = xPositions w ! i + offsetX;
             z = zPositions w ! i
         in writeLoop w offsetX height strips (i + 1)
              (setXYZ (setXYZ positionAttribute i x (height / 2) z)
                      (i + strips + 1) x (- height / 2) z))
      else positionAttribute)"
  by pat_completeness auto
termination
  by (relation "measure (\<lambda>(w, offsetX, height, strips, i, positionAttribute). Suc strips - i)") auto

declare writeLoop.simps [simp del]

text \<open>Lines 74-109: the fold geometry generator.\<close>

definition foldGeometry ::
  "real list \<Rightarrow> real \<Rightarrow> real \<Rightarrow> nat \<Rightarrow> real \<Rightarrow> real \<Rightarrow> vertex list \<Rightarrow> vertex list" where
  "foldGeometry noiseOffsets width height strips time eff positionAttribute =
     (let segWidth = width / real strips;
          w = stripLoop noiseOffsets time eff segWidth strips 0 walk_init;
          totalCurrentWidth = last (xPositions w);
          offsetX = - totalCurrentWidth / 2
      in writeLoop w offsetX height strips 0 positionAttribute)"

text \<open>The mesh behind \<open>meshRef.current\<close>: its position attribute and its rotation.\<close>

record mesh =
  position :: "vertex list"
  rotation_x :: real
  rotation_y :: real

record wall =
  meshRef :: "mesh option"
  currentStats :: stats

text \<open>
  The frame callback (lines 43-126). \<open>None\<close>: the control cell holds a non-finite
  compression (see \<open>fusion\<close>).
\<close>

definition useFrame ::
  "real list \<Rightarrow> real \<Rightarrow> real \<Rightarrow> nat \<Rightarrow> foldControlData \<Rightarrow> real \<Rightarrow> real \<times> real \<Rightarrow> wall
     \<Rightarrow> wall option" where
  "useFrame noiseOffsets width height strips controlRef time pointer st =
     (case meshRef st of
        None \<Rightarrow> Some st
      | Some m \<Rightarrow>
          (case fusion (currentStats st) controlRef (fst pointer) of
             None \<Rightarrow> None
           | Some (cur', eff) \<Rightarrow>
               (let pos' = foldGeometry noiseOffsets width height strips time eff (position m);
                    combinedTiltX = cs_tiltY cur' + snd pointer * 0.3;
                    combinedTiltY = cs_tiltX cur' + fst pointer * 0.2
                in Some \<lparr>meshRef = Some \<lparr>position = pos',
                            rotation_x = lerp (rotation_x m) (combinedTiltX * 0.5) 0.1,
                            rotation_y = lerp (rotation_y m) (combinedTiltY * 0.5) 0.1\<rparr>,
                         currentStats = cur'\<rparr>)))"

section \<open>App.tsx: the application state\<close>

datatype AppState = IDLE | CAPTURING | PROCESSING | INTERACTIVE

text \<open>
  The state of \<open>App\<close>: the two \<open>useState\<close> cells and the number of pending
  \<open>setTimeout\<close> callbacks.
\<close>

record app =
  appState :: AppState
  capturedImage :: "string option"
  pendingTimeouts :: nat

definition app_init :: app where
  "app_init = \<lparr>appState = IDLE, capturedImage = None, pendingTimeouts = 0\<rparr>"

definition handleCapture :: "string \<Rightarrow> app \<Rightarrow> app" where
  "handleCapture imageData s =
     s\<lparr>capturedImage := Some imageData, appState := PROCESSING,
       pendingTimeouts := pendingTimeouts s + 1\<rparr>"

text \<open>The callback of \<open>setTimeout\<close> (lines 276-278).\<close>

definition timeoutCallback :: "app \<Rightarrow> app" where
  "timeoutCallback s = s\<lparr>appState := INTERACTIVE, pendingTimeouts := pendingTimeouts s - 1\<rparr>"

definition handleReset :: "app \<Rightarrow> app" where
  "handleReset s = s\<lparr>capturedImage := None, appState := IDLE\<rparr>"

text \<open>
  What can happen next: \<open>handleCapture\<close> is the callback of \<open>CameraInterface\<close>,
  rendered in the state IDLE only; \<open>handleReset\<close> is the callback of \<open>Scene3D\<close>,
  rendered in the state INTERACTIVE with a captured image; a pending timeout fires.
\<close>

inductive step :: "app \<Rightarrow> app \<Rightarrow> bool" where
  capture: "appState s = IDLE \<Longrightarrow> step s (handleCapture imageData s)"
| timeout: "0 < pendingTimeouts s \<Longrightarrow> step s (timeoutCallback s)"
| reset: "appState s = INTERACTIVE \<Longrightarrow> capturedImage s \<noteq> None \<Longrightarrow> step s (handleReset s)"

text \<open>The runs of the application, the latest state first.\<close>

inductive run :: "app list \<Rightarrow> bool" where
  start: "run [app_init]"
| next_step: "run (s # tr) \<Longrightarrow> step s s' \<Longrightarrow> run (s' # s # tr)"

section \<open>Closed forms and invariants used in the proofs\<close>

text \<open>
  The boundary positions after \<open>k\<close> strips, as partial sums of the steps of the
  strip loop, and the accumulators the loop holds when it reaches the index \<open>k\<close>.
\<close>

definition xAt :: "real list \<Rightarrow> real \<Rightarrow> real \<Rightarrow> real \<Rightarrow> nat \<Rightarrow> real" where
  "xAt noiseOffsets time eff segWidth k =
     (\<Sum>j<k. segWidth * cos (angle eff (noiseOffsets ! j) time j))"

definition zAt :: "real list \<Rightarrow> real \<Rightarrow> real \<Rightarrow> real \<Rightarrow> nat \<Rightarrow> real" where
  "zAt noiseOffsets time eff segWidth k =
     (\<Sum>j<k. segWidth * sin (angle eff (noiseOffsets ! j) time j))"

definition walkAt :: "real list \<Rightarrow> real \<Rightarrow> real \<Rightarrow> real \<Rightarrow> nat \<Rightarrow> walk" where
  "walkAt noiseOffsets time eff segWidth k =
     \<lparr>currentX = xAt noiseOffsets time eff segWidth k,
      xPositions = map (xAt noiseOffsets time eff segWidth) [0..<Suc k],
      zPositions = map (zAt noiseOffsets time eff segWidth) [0..<Suc k]\<rparr>"

text \<open>
  The two vertices that the write loop stores for the boundary \<open>k\<close>.
\<close>

definition topVertex :: "walk \<Rightarrow> real \<Rightarrow> real \<Rightarrow> nat \<Rightarrow> vertex" where
  "topVertex w off h k = (xPositions w ! k + off, h / 2, zPositions w ! k)"

definition bottomVertex :: "walk \<Rightarrow> real \<Rightarrow> real \<Rightarrow> nat \<Rightarrow> vertex" where
  "bottomVertex w off h k = (xPositions w ! k + off, - h / 2, zPositions w ! k)"

text \<open>
  The pairs (state before, state after) of a run, and the invariant of the reachable
  application states: the state CAPTURING is never entered, a timeout is pending exactly
  in the state PROCESSING, and an image is held exactly outside IDLE.
\<close>

definition transitions :: "app list \<Rightarrow> (AppState \<times> AppState) list" where
  "transitions tr = zip (map appState (tl tr)) (map appState tr)"

definition consistent :: "app \<Rightarrow> bool" where
  "consistent s =
     (appState s \<noteq> CAPTURING \<and>
      pendingTimeouts s = (if appState s = PROCESSING then 1 else 0) \<and>
      (capturedImage s = None) = (appState s = IDLE))"

section \<open>Smoothing: auxiliary facts\<close>

lemma lerp_error: "lerp x y t - y = (1 - t) * (x - y)"
  by (simp add: lerp_def algebra_simps)

lemma lerp_range:
  assumes "0 \<le> x" "x \<le> 1" "0 \<le> y" "y \<le> 1" "0 \<le> t" "t \<le> 1"
  shows "0 \<le> lerp x y t \<and> lerp x y t \<le> 1"
proof -
  have "lerp x y t = (1 - t) * x + t * y" by (simp add: lerp_def)
  moreover have "0 \<le> (1 - t) * x" "0 \<le> t * y" using assms by simp_all
  moreover have "(1 - t) * x \<le> (1 - t) * 1" using assms by (intro mult_left_mono) simp_all
  moreover have "t * y \<le> t * 1" using assms by (intro mult_left_mono) simp_all
  ultimately show ?thesis by simp
qed

lemma fusion_Num:
  "fc_compression c = Num tc \<Longrightarrow>
   fusion cur c p = Some (smooth cur tc (fc_tiltX c) (fc_tiltY c),
     effectiveCompression (cs_compression (smooth cur tc (fc_tiltX c) (fc_tiltY c))) p)"
  by (simp add: fusion_def Let_def)

lemma fusionRun_closed_form:
  assumes "fc_compression c = Num tc"
  shows "\<exists>cur'. fusionRun n cur c p = Some cur' \<and>
           cs_compression cur' - tc = (9/10) ^ n * (cs_compression cur - tc) \<and>
           cs_tiltX cur' - fc_tiltX c = (19/20) ^ n * (cs_tiltX cur - fc_tiltX c) \<and>
           cs_tiltY cur' - fc_tiltY c = (19/20) ^ n * (cs_tiltY cur - fc_tiltY c)"
proof (induction n arbitrary: cur)
  case 0
  show ?case by simp
next
  case (Suc n)
  let ?s = "smooth cur tc (fc_tiltX c) (fc_tiltY c)"
  obtain cur' where r: "fusionRun n ?s c p = Some cur'"
    and a: "cs_compression cur' - tc = (9/10) ^ n * (cs_compression ?s - tc)"
    and b: "cs_tiltX cur' - fc_tiltX c = (19/20) ^ n * (cs_tiltX ?s - fc_tiltX c)"
    and d: "cs_tiltY cur' - fc_tiltY c = (19/20) ^ n * (cs_tiltY ?s - fc_tiltY c)"
    using Suc.IH [of ?s] by blast
  have run: "fusionRun (Suc n) cur c p = Some cur'"
    using r by (simp add: fusion_Num [OF assms])
  have e1: "cs_compression ?s - tc = (9/10) * (cs_compression cur - tc)"
    using lerp_error [of "cs_compression cur" tc "0.1"] by (simp add: smooth_def)
  have e2: "cs_tiltX ?s - fc_tiltX c = (19/20) * (cs_tiltX cur - fc_tiltX c)"
    using lerp_error [of "cs_tiltX cur" "fc_tiltX c" "0.05"] by (simp add: smooth_def)
  have e3: "cs_tiltY ?s - fc_tiltY c = (19/20) * (cs_tiltY cur - fc_tiltY c)"
    using lerp_error [of "cs_tiltY cur" "fc_tiltY c" "0.05"] by (simp add: smooth_def)
  have a': "cs_compression cur' - tc = (9/10) ^ Suc n * (cs_compression cur - tc)"
    unfolding a e1 by simp
  have b': "cs_tiltX cur' - fc_tiltX c = (19/20) ^ Suc n * (cs_tiltX cur - fc_tiltX c)"
    unfolding b e2 by simp
  have d': "cs_tiltY cur' - fc_tiltY c = (19/20) ^ Suc n * (cs_tiltY cur - fc_tiltY c)"
    unfolding d e3 by simp
  from run a' b' d' show ?case by blast
qed

lemma pow66: "(9/10 :: real) ^ 66 \<le> 1 / 1000"
  by (simp add: power_divide)

lemma pow60: "1 / 1000 < (9/10 :: real) ^ 60"
  by (simp add: power_divide)

lemma pow_lt_one: "0 < n \<Longrightarrow> (9/10 :: real) ^ n < 1"
  by (simp add: power_less_one_iff)

section \<open>Fold angles: auxiliary facts\<close>

lemma abs_dir: "\<bar>dir i\<bar> = 1"
  by (simp add: dir_def)

lemma wave_bounds: "- (3/20) \<le> wave time i \<and> wave time i \<le> 3/20"
proof -
  have "- 1 \<le> sin (time * 1.5 + real i * 0.3)" "sin (time * 1.5 + real i * 0.3) \<le> 1"
    by simp_all
  then show ?thesis by (simp add: wave_def)
qed

lemma pi_clamp_gt: "3/200 < pi / 2.05"
  using pi_ge_two by (simp add: field_simps)

lemma clamp_lt_half_pi: "pi / 2.05 < pi / 2"
  using pi_gt_zero by (simp add: field_simps)

lemma angle_lower:
  assumes "0 \<le> eff" "0 \<le> noise"
  shows "- (3/200) \<le> baseAngle eff time i + noise * 0.1 * eff"
proof -
  have "- (3/20) \<le> wave time i" using wave_bounds by blast
  moreover have "0 \<le> eff * 1.3" using assms by simp
  moreover have "0 \<le> noise * 0.1 * eff" using assms by simp
  ultimately show ?thesis by (simp add: baseAngle_def)
qed

lemma abs_angle_le:
  assumes "0 \<le> eff" "0 \<le> noise"
  shows "\<bar>angle eff noise time i\<bar> \<le> pi / 2.05"
proof -
  define b where "b = pi / 2.05"
  define v where "v = baseAngle eff time i + noise * 0.1 * eff"
  define m where "m = min b v"
  have "\<bar>angle eff noise time i\<bar> = \<bar>dir i\<bar> * \<bar>m\<bar>"
    by (simp add: angle_def abs_mult m_def b_def v_def)
  then have eq: "\<bar>angle eff noise time i\<bar> = \<bar>m\<bar>" by (simp add: abs_dir)
  have up: "m \<le> b" unfolding m_def by (rule min.cobounded1)
  have "- (3/200) \<le> v"
    unfolding v_def using angle_lower [OF assms] .
  moreover have "3/200 < b" unfolding b_def by (rule pi_clamp_gt)
  ultimately have lo: "- b \<le> m" unfolding m_def by linarith
  from up lo have "\<bar>m\<bar> \<le> b" by (simp add: abs_le_iff)
  then show ?thesis unfolding eq b_def .
qed

lemma angle_flat: "angle 0 n t i = dir i * (wave t i * 0.1)"
proof -
  have "wave t i * 0.1 \<le> 3/200" using wave_bounds [of t i] by simp
  then have "wave t i * 0.1 \<le> pi / 2.05" using pi_clamp_gt by linarith
  then have "min (pi / 2.05) (wave t i * 0.1) = wave t i * 0.1" by (rule min_absorb2)
  then show ?thesis by (simp add: angle_def baseAngle_def)
qed

lemma abs_angle_flat: "\<bar>angle 0 n t i\<bar> \<le> 3/200"
proof -
  define v where "v = wave t i"
  have "\<bar>angle 0 n t i\<bar> = \<bar>dir i\<bar> * \<bar>v * 0.1\<bar>"
    unfolding v_def angle_flat by (rule abs_mult)
  also have "\<dots> = \<bar>v * 0.1\<bar>" by (simp add: abs_dir)
  also have "\<dots> \<le> 3/200" using wave_bounds [of t i] unfolding v_def [symmetric] by linarith
  finally show ?thesis .
qed

lemma cos_angle_pos:
  assumes "0 \<le> eff" "0 \<le> noise"
  shows "\<bar>angle eff noise time i\<bar> < pi / 2 \<and> 0 < cos (angle eff noise time i)"
proof -
  have "\<bar>angle eff noise time i\<bar> \<le> pi / 2.05" by (rule abs_angle_le [OF assms])
  then have lt: "\<bar>angle eff noise time i\<bar> < pi / 2" using clamp_lt_half_pi by linarith
  then have "- (pi / 2) < angle eff noise time i" "angle eff noise time i < pi / 2"
    by (simp_all add: abs_less_iff)
  then have "0 < cos (angle eff noise time i)" by (rule cos_gt_zero_pi)
  with lt show ?thesis by blast
qed

lemma cos_angle_flat: "cos (3/200) \<le> cos (angle 0 n t i) \<and> 0 < cos (angle 0 n t i)"
proof -
  have le: "\<bar>angle 0 n t i\<bar> \<le> 3/200" by (rule abs_angle_flat)
  have "(3/200 :: real) \<le> pi" using pi_ge_two by linarith
  with le have "cos (3/200) \<le> cos \<bar>angle 0 n t i\<bar>"
    by (intro cos_monotone_0_pi_le) simp_all
  then have a: "cos (3/200) \<le> cos (angle 0 n t i)" by simp
  have "(3/200 :: real) < pi / 2" using pi_ge_two by linarith
  with le have "- (pi / 2) < angle 0 n t i" "angle 0 n t i < pi / 2" by linarith+
  then have "0 < cos (angle 0 n t i)" by (rule cos_gt_zero_pi)
  with a show ?thesis by blast
qed

lemma angle_flat_0_0: "angle 0 n 0 0 = 0"
  by (simp add: angle_flat wave_def)

lemma angle_flat_0_1: "angle 0 n 0 1 = - (3/200 * sin (3/10))"
  by (simp add: angle_flat wave_def dir_def)

lemma sin_three_tenths: "0 < sin (3/10 :: real) \<and> sin (3/10 :: real) \<le> 1"
proof -
  have "(3/10 :: real) < pi" using pi_ge_two by linarith
  then have "0 < sin (3/10 :: real)" by (intro sin_gt_zero) simp_all
  then show ?thesis by simp
qed

lemma angle_flat_0_1_range: "angle 0 n 0 1 < 0 \<and> - (3/200) \<le> angle 0 n 0 1"
proof -
  define s where "s = sin (3/10 :: real)"
  have "0 < s" "s \<le> 1" using sin_three_tenths unfolding s_def by blast+
  then have "- (3/200 * s) < 0 \<and> - (3/200) \<le> - (3/200 * s)" by simp
  then show ?thesis unfolding angle_flat_0_1 s_def .
qed

lemma sin_angle_flat_0_1: "sin (angle 0 n 0 1) < 0"
proof -
  define a where "a = - angle 0 n 0 1"
  have "0 < a" "a \<le> 3/200" using angle_flat_0_1_range [of n] unfolding a_def by linarith+
  moreover have "(3/200 :: real) < pi" using pi_ge_two by linarith
  ultimately have "0 < sin a" by (intro sin_gt_zero) simp_all
  then show ?thesis unfolding a_def by simp
qed

lemma cos_angle_flat_0_1: "cos (angle 0 n 0 1) < 1"
proof -
  define a where "a = - angle 0 n 0 1"
  have "0 < a" "a \<le> 3/200" using angle_flat_0_1_range [of n] unfolding a_def by linarith+
  moreover have "(3/200 :: real) \<le> pi" using pi_ge_two by linarith
  ultimately have "cos a < cos 0" by (intro cos_monotone_0_pi) simp_all
  then show ?thesis unfolding a_def by simp
qed

section \<open>The strip loop and the write loop: auxiliary facts\<close>

lemma walkAt_0: "walkAt noiseOffsets time eff segWidth 0 = walk_init"
  by (simp add: walkAt_def walk_init_def xAt_def zAt_def)

lemma walkAt_step:
  "\<lparr>currentX = currentX (walkAt ns t e sw i) + sw * cos (angle e (ns ! i) t i),
    xPositions = xPositions (walkAt ns t e sw i)
                   @ [currentX (walkAt ns t e sw i) + sw * cos (angle e (ns ! i) t i)],
    zPositions = zPositions (walkAt ns t e sw i)
                   @ [last (zPositions (walkAt ns t e sw i)) + sw * sin (angle e (ns ! i) t i)]\<rparr>
   = walkAt ns t e sw (Suc i)"
  by (simp add: walkAt_def xAt_def zAt_def)

lemma stripLoop_from:
  "i \<le> strips \<Longrightarrow> stripLoop ns t e sw strips i (walkAt ns t e sw i) = walkAt ns t e sw strips"
proof (induction "strips - i" arbitrary: i)
  case 0
  then have "i = strips" by simp
  then show ?case by (simp add: stripLoop.simps)
next
  case (Suc d)
  then have lt: "i < strips" and d: "d = strips - Suc i" and le: "Suc i \<le> strips" by simp_all
  have "stripLoop ns t e sw strips i (walkAt ns t e sw i)
      = stripLoop ns t e sw strips (Suc i) (walkAt ns t e sw (Suc i))"
    using lt by (subst stripLoop.simps) (simp add: Let_def walkAt_step)
  also have "\<dots> = walkAt ns t e sw strips"
    by (rule Suc.hyps(1) [OF d le])
  finally show ?case .
qed

lemma stripLoop_closed:
  "stripLoop ns t e sw strips 0 walk_init = walkAt ns t e sw strips"
  using stripLoop_from [of 0 strips ns t e sw] by (simp add: walkAt_0)

lemma walkAt_lengths:
  "length (xPositions (walkAt ns t e sw k)) = k + 1"
  "length (zPositions (walkAt ns t e sw k)) = k + 1"
  by (simp_all add: walkAt_def)

lemma walkAt_nth:
  "i \<le> k \<Longrightarrow> xPositions (walkAt ns t e sw k) ! i = xAt ns t e sw i"
  "i \<le> k \<Longrightarrow> zPositions (walkAt ns t e sw k) ! i = zAt ns t e sw i"
  by (simp_all add: walkAt_def nth_append del: upt_Suc)

lemma walkAt_last: "last (xPositions (walkAt ns t e sw k)) = xAt ns t e sw k"
  by (simp add: walkAt_def)

lemma setXYZ_length: "length (setXYZ b i x y z) = length b"
  by (simp add: setXYZ_def)

lemma setXYZ_nth:
  "k < length b \<Longrightarrow> setXYZ b i x y z ! k = (if k = i then (x, y, z) else b ! k)"
  by (simp add: setXYZ_def)

lemma writeLoop_length: "length (writeLoop w off h strips i b) = length b"
proof (induction w off h strips i b rule: writeLoop.induct)
  case (1 w off h strips i b)
  show ?case
  proof (cases "i \<le> strips")
    case True
    then show ?thesis
      using "1.IH" [OF True refl refl]
      by (subst writeLoop.simps) (simp add: Let_def setXYZ_length)
  next
    case False
    then show ?thesis by (subst writeLoop.simps) simp
  qed
qed

lemma writeLoop_nth:
  "length b = 2 * (strips + 1) \<Longrightarrow> k < 2 * (strips + 1) \<Longrightarrow>
   writeLoop w off h strips i b ! k =
     (if i \<le> k \<and> k \<le> strips then topVertex w off h k
      else if i + strips + 1 \<le> k then bottomVertex w off h (k - (strips + 1))
      else b ! k)"
proof (induction w off h strips i b rule: writeLoop.induct)
  case (1 w off h strips i b)
  show ?case
  proof (cases "i \<le> strips")
    case True
    let ?b' = "setXYZ (setXYZ b i (xPositions w ! i + off) (h / 2) (zPositions w ! i))
                 (i + strips + 1) (xPositions w ! i + off) (- h / 2) (zPositions w ! i)"
    have len: "length ?b' = 2 * (strips + 1)" using "1.prems" by (simp add: setXYZ_length)
    have unfold: "writeLoop w off h strips i b = writeLoop w off h strips (i + 1) ?b'"
      using True by (subst writeLoop.simps) (simp add: Let_def)
    have ih: "writeLoop w off h strips (i + 1) ?b' ! k =
       (if i + 1 \<le> k \<and> k \<le> strips then topVertex w off h k
        else if i + 1 + strips + 1 \<le> k then bottomVertex w off h (k - (strips + 1))
        else ?b' ! k)"
      using "1.IH" [OF True refl refl len "1.prems"(2)] .
    have nth: "?b' ! k = (if k = i + strips + 1 then bottomVertex w off h i
                          else if k = i then topVertex w off h i else b ! k)"
      using "1.prems" by (simp add: setXYZ_nth setXYZ_length topVertex_def bottomVertex_def)
    show ?thesis
    proof (cases "k = i + strips + 1")
      case eq: True
      then have "k - (strips + 1) = i" by simp
      then show ?thesis unfolding unfold ih nth using True eq by simp
    next
      case False
      then show ?thesis unfolding unfold ih nth using True by auto
    qed
  next
    case False
    then show ?thesis using "1.prems" by (subst writeLoop.simps) auto
  qed
qed

lemma planeGeometry_length: "length (planeGeometry width height strips) = 2 * (strips + 1)"
proof -
  have "[0..<2] = [0, Suc 0]" by (simp add: numeral_2_eq_2)
  then show ?thesis by (simp add: planeGeometry_def)
qed

lemma foldGeometry_closed:
  "foldGeometry ns width height strips t e b =
     writeLoop (walkAt ns t e (width / real strips) strips)
       (- xAt ns t e (width / real strips) strips / 2) height strips 0 b"
  by (simp add: foldGeometry_def Let_def stripLoop_closed walkAt_last)

lemma foldGeometry_length: "length (foldGeometry ns width height strips t e b) = length b"
  by (simp add: foldGeometry_closed writeLoop_length)

lemma foldGeometry_top:
  assumes "length b = 2 * (strips + 1)" "i \<le> strips"
  shows "foldGeometry ns width height strips t e b ! i =
     (xAt ns t e (width / real strips) i - xAt ns t e (width / real strips) strips / 2,
      height / 2, zAt ns t e (width / real strips) i)"
proof -
  have "i < 2 * (strips + 1)" using assms(2) by simp
  from writeLoop_nth [OF assms(1) this] assms(2) show ?thesis
    by (simp add: foldGeometry_closed topVertex_def walkAt_nth)
qed

lemma foldGeometry_bottom:
  assumes "length b = 2 * (strips + 1)" "i \<le> strips"
  shows "foldGeometry ns width height strips t e b ! (i + strips + 1) =
     (xAt ns t e (width / real strips) i - xAt ns t e (width / real strips) strips / 2,
      - height / 2, zAt ns t e (width / real strips) i)"
proof -
  have "i + strips + 1 < 2 * (strips + 1)" using assms(2) by simp
  from writeLoop_nth [OF assms(1) this] assms(2) show ?thesis
    by (simp add: foldGeometry_closed bottomVertex_def walkAt_nth)
qed

lemma xAt_Suc: "xAt ns t e sw (Suc k) = xAt ns t e sw k + sw * cos (angle e (ns ! k) t k)"
  by (simp add: xAt_def)

lemma xAt_strict_mono:
  assumes "\<forall>l<j. 0 < sw * cos (angle e (ns ! l) t l)" "i < j"
  shows "xAt ns t e sw i < xAt ns t e sw j"
  using assms
proof (induction j)
  case 0
  then show ?case by simp
next
  case (Suc j)
  have step: "xAt ns t e sw j < xAt ns t e sw (Suc j)"
    using Suc.prems(1) by (simp add: xAt_Suc)
  show ?case
  proof (cases "i = j")
    case True
    with step show ?thesis by simp
  next
    case False
    with Suc.prems have "i < j" by simp
    moreover have "\<forall>l<j. 0 < sw * cos (angle e (ns ! l) t l)" using Suc.prems(1) by simp
    ultimately have "xAt ns t e sw i < xAt ns t e sw j" by (rule Suc.IH [rotated])
    with step show ?thesis by linarith
  qed
qed

lemma xAt_flat_bounds:
  assumes "0 < width" "1 \<le> strips"
  shows "width * cos (3/200) \<le> xAt ns t 0 (width / real strips) strips"
    and "xAt ns t 0 (width / real strips) strips \<le> width"
    and "0 < xAt ns t 0 (width / real strips) strips"
proof -
  let ?sw = "width / real strips"
  have sw: "0 < ?sw" using assms by simp
  have up: "?sw * cos (angle 0 (ns ! j) t j) \<le> ?sw" for j
    using sw mult_left_mono [of "cos (angle 0 (ns ! j) t j)" 1 ?sw] by simp
  have lo: "?sw * cos (3/200) \<le> ?sw * cos (angle 0 (ns ! j) t j)" for j
    using sw cos_angle_flat [of "ns ! j" t j] by (intro mult_left_mono) simp_all
  have "xAt ns t 0 ?sw strips \<le> of_nat (card {..<strips}) * ?sw"
    unfolding xAt_def by (rule sum_bounded_above) (rule up)
  then show "xAt ns t 0 ?sw strips \<le> width" using assms by simp
  have "of_nat (card {..<strips}) * (?sw * cos (3/200)) \<le> xAt ns t 0 ?sw strips"
    unfolding xAt_def by (rule sum_bounded_below) (rule lo)
  then show "width * cos (3/200) \<le> xAt ns t 0 ?sw strips" using assms by simp
  have "0 < ?sw * cos (angle 0 (ns ! l) t l)" for l
    using sw cos_angle_flat [of "ns ! l" t l] by (intro mult_pos_pos) simp_all
  then have "\<forall>l<strips. 0 < ?sw * cos (angle 0 (ns ! l) t l)" by blast
  then have "xAt ns t 0 ?sw 0 < xAt ns t 0 ?sw strips"
    using assms(2) by (intro xAt_strict_mono) simp_all
  then show "0 < xAt ns t 0 ?sw strips" by (simp add: xAt_def)
qed

lemma zAt_2:
  "zAt ns t e sw 2 = sw * sin (angle e (ns ! 0) t 0) + sw * sin (angle e (ns ! 1) t 1)"
  by (simp add: zAt_def numeral_2_eq_2)

lemma xAt_4:
  "xAt ns t e sw 4 = sw * cos (angle e (ns ! 0) t 0) + sw * cos (angle e (ns ! 1) t 1)
     + sw * cos (angle e (ns ! 2) t 2) + sw * cos (angle e (ns ! 3) t 3)"
  by (simp add: xAt_def numeral_eq_Suc)

text \<open>
  The frame callback is the composition of the parts above: without a mounted mesh it
  changes nothing; with one, it stores the smoothed state of \<open>fusion\<close> and the vertices
  that \<open>foldGeometry\<close> computes from the effective compression of \<open>fusion\<close>.
\<close>

lemma useFrame_unmounted:
  "meshRef st = None \<Longrightarrow> useFrame ns width height strips c t p st = Some st"
  by (simp add: useFrame_def)

lemma useFrame_mounted:
  assumes "meshRef st = Some m" "fusion (currentStats st) c (fst p) = Some (cur', eff)"
  shows "\<exists>m'. useFrame ns width height strips c t p st
           = Some \<lparr>meshRef = Some m', currentStats = cur'\<rparr> \<and>
         position m' = foldGeometry ns width height strips t eff (position m)"
  using assms by (simp add: useFrame_def Let_def)

section \<open>The hand-pose derivation and the application state: auxiliary facts\<close>

lemma compressionOfRatio_Num:
  "compressionOfRatio (Num r) = Num (1 - max 0 (min 1 ((r - 0.9) / 0.8)))"
  by (simp add: compressionOfRatio_def)

lemma consistent_init: "consistent app_init"
  by (simp add: consistent_def app_init_def)

lemma step_consistent:
  assumes "step s s'" "consistent s"
  shows "consistent s' \<and>
         (appState s, appState s') \<in>
           {(IDLE, PROCESSING), (PROCESSING, INTERACTIVE), (INTERACTIVE, IDLE)}"
  using assms
proof (cases rule: step.cases)
  case (capture imageData)
  with assms(2) show ?thesis by (simp add: consistent_def handleCapture_def)
next
  case timeout
  with assms(2) show ?thesis
    by (cases "appState s") (simp_all add: consistent_def timeoutCallback_def)
next
  case reset
  with assms(2) show ?thesis by (simp add: consistent_def handleReset_def)
qed

lemma run_invariant:
  assumes "run tr"
  shows "tr \<noteq> [] \<and> (\<forall>s \<in> set tr. consistent s) \<and>
         set (transitions tr) \<subseteq>
           {(IDLE, PROCESSING), (PROCESSING, INTERACTIVE), (INTERACTIVE, IDLE)}"
  using assms
proof (induction rule: run.induct)
  case start
  show ?case by (simp add: consistent_init transitions_def)
next
  case (next_step s tr s')
  then have c: "consistent s" by simp
  from step_consistent [OF next_step.hyps(2) c] next_step.IH
  show ?case by (simp add: transitions_def)
qed

lemma example_run:
  "run [timeoutCallback (handleCapture ''selfie'' app_init),
        handleCapture ''selfie'' app_init, app_init]"
proof -
  have s1: "step app_init (handleCapture ''selfie'' app_init)"
    by (rule step.capture) (simp add: app_init_def)
  have s2: "step (handleCapture ''selfie'' app_init)
      (timeoutCallback (handleCapture ''selfie'' app_init))"
    by (rule step.timeout) (simp add: handleCapture_def)
  show ?thesis by (intro run.next_step run.start s1 s2)
qed

section \<open>The claims\<close>

text \<open>
  C1. A frame whose control cell holds a finite target smooths the compression towards
  it with factor 0.1 and takes as effective compression the maximum of that smoothed
  compression and the mouse compression \<open>|pointer.x|\<close>; this maximum is the
  compression from which the frame callback computes the vertices. For smoothed and
  mouse compressions in [0,1], raising either one alone never lowers it. With the
  pointer at x = 1 and the hand untracked (the last sample had \<open>isTracking = false\<close>),
  the frame's effective compression is 1 whatever the control cell held before and
  whatever smoothed compression in [0,1] the earlier hand frames left behind.
\<close>

theorem effectiveCompression_max_precedence:
  "(fc_compression controlRef = Num target \<longrightarrow>
      fusion cur controlRef p =
        Some (smooth cur target (fc_tiltX controlRef) (fc_tiltY controlRef),
              max (lerp (cs_compression cur) target 0.1) \<bar>p\<bar>)) \<and>
   (meshRef st = Some m \<and> fc_compression controlRef = Num target \<longrightarrow>
      (\<exists>m'. useFrame noiseOffsets width height strips controlRef time pointer st =
              Some \<lparr>meshRef = Some m',
                    currentStats = smooth (currentStats st) target
                                     (fc_tiltX controlRef) (fc_tiltY controlRef)\<rparr> \<and>
            position m' =
              foldGeometry noiseOffsets width height strips time
                (max (lerp (cs_compression (currentStats st)) target 0.1) \<bar>fst pointer\<bar>)
                (position m))) \<and>
   effectiveCompression s p = max s (mouseCompression p) \<and> mouseCompression p = \<bar>p\<bar> \<and>
   (0 \<le> s \<and> s \<le> s' \<and> s' \<le> 1 \<and> \<bar>p\<bar> \<le> 1 \<longrightarrow>
      effectiveCompression s p \<le> effectiveCompression s' p) \<and>
   (0 \<le> s \<and> s \<le> 1 \<and> \<bar>p\<bar> \<le> \<bar>p'\<bar> \<and> \<bar>p'\<bar> \<le> 1 \<longrightarrow>
      effectiveCompression s p \<le> effectiveCompression s p') \<and>
   (\<not> isTracking data \<and> 0 \<le> cs_compression cur \<and> cs_compression cur \<le> 1 \<longrightarrow>
      fusion cur (handleHandUpdate data controlRef) 1 = Some (smooth cur 0 0 0, 1))"
proof -
  have f: "fusion cur controlRef p =
        Some (smooth cur target (fc_tiltX controlRef) (fc_tiltY controlRef),
              max (lerp (cs_compression cur) target 0.1) \<bar>p\<bar>)"
    if "fc_compression controlRef = Num target"
    using fusion_Num [OF that, of cur p]
    by (simp add: effectiveCompression_def mouseCompression_def smooth_def)
  have u: "\<exists>m'. useFrame noiseOffsets width height strips controlRef time pointer st =
              Some \<lparr>meshRef = Some m',
                    currentStats = smooth (currentStats st) target
                                     (fc_tiltX controlRef) (fc_tiltY controlRef)\<rparr> \<and>
            position m' =
              foldGeometry noiseOffsets width height strips time
                (max (lerp (cs_compression (currentStats st)) target 0.1) \<bar>fst pointer\<bar>)
                (position m)"
    if h: "meshRef st = Some m" "fc_compression controlRef = Num target"
  proof -
    have "fusion (currentStats st) controlRef (fst pointer) =
        Some (smooth (currentStats st) target (fc_tiltX controlRef) (fc_tiltY controlRef),
              max (lerp (cs_compression (currentStats st)) target 0.1) \<bar>fst pointer\<bar>)"
      using fusion_Num [OF h(2), of "currentStats st" "fst pointer"]
      by (simp add: effectiveCompression_def mouseCompression_def smooth_def)
    from useFrame_mounted [OF h(1) this] show ?thesis .
  qed
  have a: "effectiveCompression s p = max s (mouseCompression p)"
    by (simp add: effectiveCompression_def)
  have a': "mouseCompression p = \<bar>p\<bar>"
    by (simp add: mouseCompression_def)
  have b: "s \<le> s' \<longrightarrow> effectiveCompression s p \<le> effectiveCompression s' p"
    by (auto simp: effectiveCompression_def)
  have c: "\<bar>p\<bar> \<le> \<bar>p'\<bar> \<longrightarrow> effectiveCompression s p \<le> effectiveCompression s p'"
    by (auto simp: effectiveCompression_def mouseCompression_def)
  have d: "fusion cur (handleHandUpdate data controlRef) 1 = Some (smooth cur 0 0 0, 1)"
    if "\<not> isTracking data" "0 \<le> cs_compression cur" "cs_compression cur \<le> 1"
  proof -
    have "lerp (cs_compression cur) 0 0.1 \<le> 1"
      using that by (simp add: lerp_def)
    then show ?thesis
      using that
      by (simp add: fusion_def handleHandUpdate_def Let_def smooth_def
          effectiveCompression_def mouseCompression_def max_def)
  qed
  from f u a a' b c d show ?thesis by blast
qed

text \<open>
  C1 at concrete inputs: a closed fist (smoothed compression and target 1) with the
  mouse centred keeps the effective compression 1, also through the frame callback; an
  open hand with the pointer at -3/5 gives 3/5; smoothed compressions 1/5 and 1/2 with
  pointers at 3/10 and -3/5; and an untracked sample arriving while the smoothed
  compression is 1.
\<close>

theorem effectiveCompression_max_precedence_witness:
  "fusion \<lparr>cs_compression = 1, cs_tiltX = 0, cs_tiltY = 0\<rparr>
      \<lparr>fc_compression = Num 1, fc_tiltX = 0, fc_tiltY = 0\<rparr> 0 =
     Some (\<lparr>cs_compression = 1, cs_tiltX = 0, cs_tiltY = 0\<rparr>, 1) \<and>
   fusion \<lparr>cs_compression = 0, cs_tiltX = 0, cs_tiltY = 0\<rparr>
      \<lparr>fc_compression = Num 0, fc_tiltX = 0, fc_tiltY = 0\<rparr> (- 3/5) =
     Some (\<lparr>cs_compression = 0, cs_tiltX = 0, cs_tiltY = 0\<rparr>, 3/5) \<and>
   (\<exists>m'. useFrame [0, 0] 4 2 2 \<lparr>fc_compression = Num 1, fc_tiltX = 0, fc_tiltY = 0\<rparr> 0 (0, 0)
            \<lparr>meshRef = Some \<lparr>position = planeGeometry 4 2 2, rotation_x = 0, rotation_y = 0\<rparr>,
             currentStats = \<lparr>cs_compression = 1, cs_tiltX = 0, cs_tiltY = 0\<rparr>\<rparr> =
            Some \<lparr>meshRef = Some m',
                  currentStats = \<lparr>cs_compression = 1, cs_tiltX = 0, cs_tiltY = 0\<rparr>\<rparr> \<and>
          position m' = foldGeometry [0, 0] 4 2 2 0 1 (planeGeometry 4 2 2)) \<and>
   effectiveCompression (1/5) (3/10) = 3/10 \<and>
   effectiveCompression (1/5) (3/10) \<le> effectiveCompression (1/2) (3/10) \<and>
   effectiveCompression (1/5) (3/10) \<le> effectiveCompression (1/5) (- 3/5) \<and>
   fusion \<lparr>cs_compression = 1, cs_tiltX = 1/2, cs_tiltY = 0\<rparr>
       (handleHandUpdate \<lparr>hc_compression = Num 0, hc_x = 0, hc_y = 0, isTracking = False\<rparr>
          \<lparr>fc_compression = Num 1, fc_tiltX = 1/2, fc_tiltY = 0\<rparr>) 1 =
     Some (\<lparr>cs_compression = 9/10, cs_tiltX = 19/40, cs_tiltY = 0\<rparr>, 1)"
proof -
  let ?fist = "\<lparr>cs_compression = 1, cs_tiltX = 0, cs_tiltY = 0\<rparr>"
  let ?c1 = "\<lparr>fc_compression = Num 1, fc_tiltX = 0, fc_tiltY = 0\<rparr>"
  let ?st = "\<lparr>meshRef = Some \<lparr>position = planeGeometry 4 2 2, rotation_x = 0, rotation_y = 0\<rparr>,
             currentStats = ?fist\<rparr>"
  have w1: "fusion ?fist ?c1 0 = Some (?fist, 1)"
    using effectiveCompression_max_precedence [where controlRef = ?c1 and target = 1 and cur = ?fist and p = 0]
    by (simp add: smooth_def lerp_def)
  have w2: "fusion \<lparr>cs_compression = 0, cs_tiltX = 0, cs_tiltY = 0\<rparr>
      \<lparr>fc_compression = Num 0, fc_tiltX = 0, fc_tiltY = 0\<rparr> (- 3/5) =
     Some (\<lparr>cs_compression = 0, cs_tiltX = 0, cs_tiltY = 0\<rparr>, 3/5)"
    using effectiveCompression_max_precedence [where controlRef = "\<lparr>fc_compression = Num 0, fc_tiltX = 0, fc_tiltY = 0\<rparr>"
        and target = 0 and cur = "\<lparr>cs_compression = 0, cs_tiltX = 0, cs_tiltY = 0\<rparr>"
        and p = "- 3/5"]
    by (simp add: smooth_def lerp_def)
  have w3: "\<exists>m'. useFrame [0, 0] 4 2 2 ?c1 0 (0, 0) ?st =
            Some \<lparr>meshRef = Some m', currentStats = ?fist\<rparr> \<and>
          position m' = foldGeometry [0, 0] 4 2 2 0 1 (planeGeometry 4 2 2)"
    using effectiveCompression_max_precedence [where controlRef = ?c1 and target = 1 and st = ?st
        and m = "\<lparr>position = planeGeometry 4 2 2, rotation_x = 0, rotation_y = 0\<rparr>"
        and noiseOffsets = "[0, 0]" and width = 4 and height = 2 and strips = 2 and time = 0
        and pointer = "(0, 0)"]
    by (simp add: smooth_def lerp_def)
  have w4: "effectiveCompression (1/5) (3/10) = 3/10 \<and>
   effectiveCompression (1/5) (3/10) \<le> effectiveCompression (1/2) (3/10) \<and>
   effectiveCompression (1/5) (3/10) \<le> effectiveCompression (1/5) (- 3/5) \<and>
   fusion \<lparr>cs_compression = 1, cs_tiltX = 1/2, cs_tiltY = 0\<rparr>
       (handleHandUpdate \<lparr>hc_compression = Num 0, hc_x = 0, hc_y = 0, isTracking = False\<rparr>
          \<lparr>fc_compression = Num 1, fc_tiltX = 1/2, fc_tiltY = 0\<rparr>) 1 =
     Some (\<lparr>cs_compression = 9/10, cs_tiltX = 19/40, cs_tiltY = 0\<rparr>, 1)"
    using effectiveCompression_max_precedence [where s = "1/5" and p = "3/10" and s' = "1/2" and p' = "- 3/5"
        and data = "\<lparr>hc_compression = Num 0, hc_x = 0, hc_y = 0, isTracking = False\<rparr>"
        and cur = "\<lparr>cs_compression = 1, cs_tiltX = 1/2, cs_tiltY = 0\<rparr>"
        and controlRef = "\<lparr>fc_compression = Num 1, fc_tiltX = 1/2, fc_tiltY = 0\<rparr>"]
    by (simp add: mouseCompression_def smooth_def lerp_def)
  from w1 w2 w3 w4 show ?thesis by blast
qed

text \<open>
  C2. For an effective compression in [0,1], a noise table of \<open>strips\<close> entries in [0,1)
  and any elapsed time, the fold angle of every strip \<open>i\<close> is at most \<open>\<pi>/2.05\<close> in
  absolute value.
\<close>

theorem fold_angle_clamped:
  "0 \<le> eff \<and> eff \<le> 1 \<and> length noiseOffsets = strips \<and>
   (\<forall>n \<in> set noiseOffsets. 0 \<le> n \<and> n < 1) \<and> i < strips \<longrightarrow>
     \<bar>angle eff (noiseOffsets ! i) time i\<bar> \<le> pi / 2.05"
proof
  assume h: "0 \<le> eff \<and> eff \<le> 1 \<and> length noiseOffsets = strips \<and>
    (\<forall>n \<in> set noiseOffsets. 0 \<le> n \<and> n < 1) \<and> i < strips"
  then have "noiseOffsets ! i \<in> set noiseOffsets" by simp
  with h have n: "0 \<le> noiseOffsets ! i" by blast
  from h have e: "0 \<le> eff" by blast
  show "\<bar>angle eff (noiseOffsets ! i) time i\<bar> \<le> pi / 2.05"
    by (rule abs_angle_le [OF e n])
qed

text \<open>
  C2 at full compression, for the third of four strips at time 7.
\<close>

theorem fold_angle_clamped_witness:
  "\<bar>angle 1 ([1/4, 1/2, 3/4, 0] ! 2) 7 2\<bar> \<le> pi / 2.05"
  using fold_angle_clamped [of 1 "[1/4, 1/2, 3/4, 0]" 4 2 7] by simp

text \<open>
  C3, as amended. With effective compression 0 and an all-zero noise table the fold
  angle of strip \<open>i\<close> is \<open>dir i * 0.015 * sin (1.5 t + 0.3 i)\<close>, the time-based wobble, at
  most 0.015 in absolute value. The generator emits \<open>2 * (strips + 1)\<close> vertices, the top
  row at \<open>y = height / 2\<close> and the bottom row at \<open>y = - height / 2\<close> with the same x and z;
  the two ends of the polyline are symmetric about X = 0, the first boundary has z = 0,
  and the span between the ends lies between \<open>width * cos 0.015\<close> and \<open>width\<close>.
\<close>

theorem flat_wall_geometry:
  "length noiseOffsets = strips \<and> (\<forall>n \<in> set noiseOffsets. n = 0) \<and> 1 \<le> strips \<and> 0 < width \<and>
   length positionAttribute = 2 * (strips + 1) \<longrightarrow>
     (\<forall>i<strips.
        angle 0 (noiseOffsets ! i) time i = dir i * (3/200 * sin (time * 1.5 + real i * 0.3)) \<and>
        \<bar>angle 0 (noiseOffsets ! i) time i\<bar> \<le> 3/200) \<and>
     (let out = foldGeometry noiseOffsets width height strips time 0 positionAttribute in
        length out = 2 * (strips + 1) \<and>
        (\<forall>i\<le>strips.
           fst (snd (out ! i)) = height / 2 \<and> fst (snd (out ! (i + strips + 1))) = - height / 2 \<and>
           fst (out ! (i + strips + 1)) = fst (out ! i) \<and>
           snd (snd (out ! (i + strips + 1))) = snd (snd (out ! i))) \<and>
        fst (out ! 0) = - fst (out ! strips) \<and> snd (snd (out ! 0)) = 0 \<and>
        width * cos (3/200) \<le> fst (out ! strips) - fst (out ! 0) \<and>
        fst (out ! strips) - fst (out ! 0) \<le> width)"
proof
  assume h: "length noiseOffsets = strips \<and> (\<forall>n \<in> set noiseOffsets. n = 0) \<and> 1 \<le> strips \<and>
    0 < width \<and> length positionAttribute = 2 * (strips + 1)"
  then have len: "length positionAttribute = 2 * (strips + 1)"
    and w: "0 < width" and s: "1 \<le> strips" by blast+
  let ?out = "foldGeometry noiseOffsets width height strips time 0 positionAttribute"
  let ?X = "xAt noiseOffsets time 0 (width / real strips)"
  have a: "\<forall>i<strips.
        angle 0 (noiseOffsets ! i) time i = dir i * (3/200 * sin (time * 1.5 + real i * 0.3)) \<and>
        \<bar>angle 0 (noiseOffsets ! i) time i\<bar> \<le> 3/200"
  proof (intro allI impI conjI)
    fix i
    show "angle 0 (noiseOffsets ! i) time i = dir i * (3/200 * sin (time * 1.5 + real i * 0.3))"
      unfolding angle_flat wave_def by simp
    show "\<bar>angle 0 (noiseOffsets ! i) time i\<bar> \<le> 3/200" by (rule abs_angle_flat)
  qed
  have l: "length ?out = 2 * (strips + 1)" using len by (simp add: foldGeometry_length)
  have rows: "\<forall>i\<le>strips.
           fst (snd (?out ! i)) = height / 2 \<and> fst (snd (?out ! (i + strips + 1))) = - height / 2 \<and>
           fst (?out ! (i + strips + 1)) = fst (?out ! i) \<and>
           snd (snd (?out ! (i + strips + 1))) = snd (snd (?out ! i))"
    using foldGeometry_top [OF len] foldGeometry_bottom [OF len] by simp
  have x0: "fst (?out ! 0) = - ?X strips / 2"
    using foldGeometry_top [OF len, of 0] by (simp add: xAt_def)
  have xs: "fst (?out ! strips) = ?X strips / 2"
    using foldGeometry_top [OF len, of strips] by simp
  have z0: "snd (snd (?out ! 0)) = 0"
    using foldGeometry_top [OF len, of 0] by (simp add: zAt_def)
  have span: "fst (?out ! strips) - fst (?out ! 0) = ?X strips"
    unfolding x0 xs by simp
  have sym: "fst (?out ! 0) = - fst (?out ! strips)"
    unfolding x0 xs by simp
  from xAt_flat_bounds [OF w s, of noiseOffsets time]
  have b1: "width * cos (3/200) \<le> fst (?out ! strips) - fst (?out ! 0)"
    and b2: "fst (?out ! strips) - fst (?out ! 0) \<le> width"
    unfolding span by blast+
  from a l rows sym z0 b1 b2
  show "(\<forall>i<strips.
        angle 0 (noiseOffsets ! i) time i = dir i * (3/200 * sin (time * 1.5 + real i * 0.3)) \<and>
        \<bar>angle 0 (noiseOffsets ! i) time i\<bar> \<le> 3/200) \<and>
     (let out = foldGeometry noiseOffsets width height strips time 0 positionAttribute in
        length out = 2 * (strips + 1) \<and>
        (\<forall>i\<le>strips.
           fst (snd (out ! i)) = height / 2 \<and> fst (snd (out ! (i + strips + 1))) = - height / 2 \<and>
           fst (out ! (i + strips + 1)) = fst (out ! i) \<and>
           snd (snd (out ! (i + strips + 1))) = snd (snd (out ! i))) \<and>
        fst (out ! 0) = - fst (out ! strips) \<and> snd (snd (out ! 0)) = 0 \<and>
        width * cos (3/200) \<le> fst (out ! strips) - fst (out ! 0) \<and>
        fst (out ! strips) - fst (out ! 0) \<le> width)"
    unfolding Let_def by blast
qed

text \<open>
  C3, as amended, in the scenario of the claim: 4 strips, width 16, height 10, time 0.
\<close>

theorem flat_wall_geometry_witness:
  "length (foldGeometry [0, 0, 0, 0] 16 10 4 0 0 (planeGeometry 16 10 4)) = 10 \<and>
   fst (snd (foldGeometry [0, 0, 0, 0] 16 10 4 0 0 (planeGeometry 16 10 4) ! 3)) = 5 \<and>
   fst (snd (foldGeometry [0, 0, 0, 0] 16 10 4 0 0 (planeGeometry 16 10 4) ! 8)) = - 5 \<and>
   angle 0 ([0, 0, 0, 0] ! 3) 0 3 = dir 3 * (3/200 * sin (0 * 1.5 + real (3::nat) * 0.3)) \<and>
   fst (foldGeometry [0, 0, 0, 0] 16 10 4 0 0 (planeGeometry 16 10 4) ! 0) =
     - fst (foldGeometry [0, 0, 0, 0] 16 10 4 0 0 (planeGeometry 16 10 4) ! 4) \<and>
   fst (foldGeometry [0, 0, 0, 0] 16 10 4 0 0 (planeGeometry 16 10 4) ! 4)
     - fst (foldGeometry [0, 0, 0, 0] 16 10 4 0 0 (planeGeometry 16 10 4) ! 0) \<le> 16"
proof -
  let ?out = "foldGeometry [0, 0, 0, 0] 16 10 4 0 0 (planeGeometry 16 10 4)"
  have h: "length [0, 0, 0, 0 :: real] = 4 \<and> (\<forall>n \<in> set [0, 0, 0, 0 :: real]. n = 0) \<and>
    (1::nat) \<le> 4 \<and> (0::real) < 16 \<and> length (planeGeometry 16 10 4) = 2 * (4 + 1)"
    by (simp add: planeGeometry_length)
  from flat_wall_geometry [of "[0, 0, 0, 0]" 4 16 "planeGeometry 16 10 4" 0 10] h
  have a: "\<forall>i<4. angle 0 ([0, 0, 0, 0] ! i) 0 i = dir i * (3/200 * sin (0 * 1.5 + real i * 0.3)) \<and>
        \<bar>angle 0 ([0, 0, 0, 0] ! i) 0 i\<bar> \<le> 3/200"
    and l: "length ?out = 2 * (4 + 1)"
    and r: "\<forall>i\<le>4. fst (snd (?out ! i)) = 10 / 2 \<and> fst (snd (?out ! (i + 4 + 1))) = - 10 / 2 \<and>
           fst (?out ! (i + 4 + 1)) = fst (?out ! i) \<and>
           snd (snd (?out ! (i + 4 + 1))) = snd (snd (?out ! i))"
    and s: "fst (?out ! 0) = - fst (?out ! 4)"
    and b: "fst (?out ! 4) - fst (?out ! 0) \<le> 16"
    unfolding Let_def by blast+
  have a3: "angle 0 ([0, 0, 0, 0] ! 3) 0 3 = dir 3 * (3/200 * sin (0 * 1.5 + real (3::nat) * 0.3))"
  proof -
    have "(3::nat) < 4" by simp
    from a [rule_format, OF this] show ?thesis by blast
  qed
  have r3: "fst (snd (?out ! 3)) = 5" "fst (snd (?out ! 8)) = - 5"
    using r [rule_format, of 3] by simp_all
  from l r3 a3 s b show ?thesis by simp
qed

text \<open>
  C3 as stated fails in its own scenario (4 strips, width 16, height 10, compression 0,
  time 0, all-zero noise): the angle of strip 1 is \<open>- 0.015 * sin 0.3\<close>, not 0; the third
  top vertex has a z different from 0; and the last top vertex has x below 8.
\<close>

theorem flat_wall_not_straight:
  "angle 0 ([0, 0, 0, 0] ! 1) 0 1 \<noteq> 0 \<and>
   snd (snd (foldGeometry [0, 0, 0, 0] 16 10 4 0 0 (planeGeometry 16 10 4) ! 2)) \<noteq> 0 \<and>
   fst (foldGeometry [0, 0, 0, 0] 16 10 4 0 0 (planeGeometry 16 10 4) ! 4) < 8"
proof -
  let ?ns = "[0, 0, 0, 0] :: real list"
  let ?out = "foldGeometry ?ns 16 10 4 0 0 (planeGeometry 16 10 4)"
  have len: "length (planeGeometry 16 10 4) = 2 * (4 + 1)" by (rule planeGeometry_length)
  have a: "angle 0 (?ns ! 1) 0 1 \<noteq> 0"
    using angle_flat_0_1_range [of 0] by simp
  have "snd (snd (?out ! 2)) = zAt ?ns 0 0 (16 / real 4) 2"
    using foldGeometry_top [OF len, of 2 ?ns 16 10 0 0] by simp
  also have "\<dots> = 4 * sin (angle 0 0 0 1)"
    by (simp add: zAt_2 angle_flat_0_0)
  finally have z: "snd (snd (?out ! 2)) = 4 * sin (angle 0 0 0 1)" .
  have b: "snd (snd (?out ! 2)) \<noteq> 0"
    unfolding z using sin_angle_flat_0_1 [of 0] by simp
  have "fst (?out ! 4) = xAt ?ns 0 0 (16 / real 4) 4 / 2"
    using foldGeometry_top [OF len, of 4 ?ns 16 10 0 0] by simp
  also have "\<dots> = (4 + 4 * cos (angle 0 0 0 1) + 4 * cos (angle 0 0 0 2)
      + 4 * cos (angle 0 0 0 3)) / 2"
    by (simp add: xAt_4 angle_flat_0_0)
  finally have x: "fst (?out ! 4) = (4 + 4 * cos (angle 0 0 0 1) + 4 * cos (angle 0 0 0 2)
      + 4 * cos (angle 0 0 0 3)) / 2" .
  define c1 c2 c3 where "c1 = cos (angle 0 0 0 1)" and "c2 = cos (angle 0 0 0 2)"
    and "c3 = cos (angle 0 0 0 3)"
  have "c1 < 1" unfolding c1_def by (rule cos_angle_flat_0_1)
  moreover have "c2 \<le> 1" "c3 \<le> 1" unfolding c2_def c3_def by simp_all
  ultimately have "(4 + 4 * c1 + 4 * c2 + 4 * c3) / 2 < 8" by simp
  then have c: "fst (?out ! 4) < 8" unfolding x c1_def c2_def c3_def .
  from a b c show ?thesis by blast
qed

text \<open>
  C4, as amended. Each frame multiplies the distance of the smoothed compression from a
  constant finite target by 0.9 (of each tilt by 0.95), so after \<open>n\<close> frames it is
  \<open>0.9 ^ n\<close> times the initial distance; for a target and a start in [0,1] it is at
  most 1e-3 from frame 66 on.
\<close>

theorem smoothing_geometric_convergence:
  "fc_compression controlRef = Num c \<longrightarrow>
     (\<exists>cur'. fusionRun n cur controlRef p = Some cur' \<and>
        \<bar>cs_compression cur' - c\<bar> = (9/10) ^ n * \<bar>cs_compression cur - c\<bar> \<and>
        \<bar>cs_tiltX cur' - fc_tiltX controlRef\<bar>
           = (19/20) ^ n * \<bar>cs_tiltX cur - fc_tiltX controlRef\<bar> \<and>
        \<bar>cs_tiltY cur' - fc_tiltY controlRef\<bar>
           = (19/20) ^ n * \<bar>cs_tiltY cur - fc_tiltY controlRef\<bar> \<and>
        (0 \<le> c \<and> c \<le> 1 \<and> 0 \<le> cs_compression cur \<and> cs_compression cur \<le> 1 \<and> 66 \<le> n
           \<longrightarrow> \<bar>cs_compression cur' - c\<bar> \<le> 1 / 1000))"
proof
  assume h: "fc_compression controlRef = Num c"
  obtain cur' where r: "fusionRun n cur controlRef p = Some cur'"
    and a: "cs_compression cur' - c = (9/10) ^ n * (cs_compression cur - c)"
    and b: "cs_tiltX cur' - fc_tiltX controlRef = (19/20) ^ n * (cs_tiltX cur - fc_tiltX controlRef)"
    and d: "cs_tiltY cur' - fc_tiltY controlRef = (19/20) ^ n * (cs_tiltY cur - fc_tiltY controlRef)"
    using fusionRun_closed_form [OF h, of n cur p] by blast
  have a': "\<bar>cs_compression cur' - c\<bar> = (9/10) ^ n * \<bar>cs_compression cur - c\<bar>"
    unfolding a by (simp add: abs_mult)
  have b': "\<bar>cs_tiltX cur' - fc_tiltX controlRef\<bar>
      = (19/20) ^ n * \<bar>cs_tiltX cur - fc_tiltX controlRef\<bar>"
    unfolding b by (simp add: abs_mult)
  have d': "\<bar>cs_tiltY cur' - fc_tiltY controlRef\<bar>
      = (19/20) ^ n * \<bar>cs_tiltY cur - fc_tiltY controlRef\<bar>"
    unfolding d by (simp add: abs_mult)
  have e: "\<bar>cs_compression cur' - c\<bar> \<le> 1 / 1000"
    if "0 \<le> c" "c \<le> 1" "0 \<le> cs_compression cur" "cs_compression cur \<le> 1" "66 \<le> n"
  proof -
    have "(9/10 :: real) ^ n \<le> (9/10) ^ 66"
      using that(5) by (intro power_decreasing) simp_all
    then have p: "(9/10 :: real) ^ n \<le> 1 / 1000" using pow66 by linarith
    have q: "\<bar>cs_compression cur - c\<bar> \<le> 1" using that by (simp add: abs_le_iff)
    have "(9/10) ^ n * \<bar>cs_compression cur - c\<bar> \<le> (1 / 1000) * 1"
      using p q by (intro mult_mono) simp_all
    then show ?thesis using a' by simp
  qed
  from r a' b' d' e
  show "\<exists>cur'. fusionRun n cur controlRef p = Some cur' \<and>
        \<bar>cs_compression cur' - c\<bar> = (9/10) ^ n * \<bar>cs_compression cur - c\<bar> \<and>
        \<bar>cs_tiltX cur' - fc_tiltX controlRef\<bar>
           = (19/20) ^ n * \<bar>cs_tiltX cur - fc_tiltX controlRef\<bar> \<and>
        \<bar>cs_tiltY cur' - fc_tiltY controlRef\<bar>
           = (19/20) ^ n * \<bar>cs_tiltY cur - fc_tiltY controlRef\<bar> \<and>
        (0 \<le> c \<and> c \<le> 1 \<and> 0 \<le> cs_compression cur \<and> cs_compression cur \<le> 1 \<and> 66 \<le> n
           \<longrightarrow> \<bar>cs_compression cur' - c\<bar> \<le> 1 / 1000)"
    by blast
qed

text \<open>
  C4, as amended, from the initial state towards the target 1, after 66 frames.
\<close>

theorem smoothing_geometric_convergence_witness:
  "\<exists>cur'. fusionRun 66 currentStats_init
             \<lparr>fc_compression = Num 1, fc_tiltX = 0, fc_tiltY = 0\<rparr> 0 = Some cur' \<and>
          \<bar>cs_compression cur' - 1\<bar> = (9/10) ^ 66 \<and>
          \<bar>cs_compression cur' - 1\<bar> \<le> 1 / 1000"
  using smoothing_geometric_convergence
    [of "\<lparr>fc_compression = Num 1, fc_tiltX = 0, fc_tiltY = 0\<rparr>" 1 66 currentStats_init 0]
  by (simp add: currentStats_init_def) blast

text \<open>
  C4 as stated fails at 60 frames: from the initial smoothed compression 0 towards the
  target 1 the distance is then \<open>0.9 ^ 60\<close>, which is above 1e-3.
\<close>

theorem compression_not_settled_after_60:
  "map_option cs_compression
     (fusionRun 60 currentStats_init \<lparr>fc_compression = Num 1, fc_tiltX = 0, fc_tiltY = 0\<rparr> 0)
     = Some (1 - (9/10) ^ 60) \<and>
   1 / 1000 < \<bar>(1 - (9/10) ^ 60) - (1::real)\<bar>"
proof -
  let ?c = "\<lparr>fc_compression = Num 1, fc_tiltX = 0, fc_tiltY = 0\<rparr>"
  obtain cur' where r: "fusionRun 60 currentStats_init ?c 0 = Some cur'"
    and e: "cs_compression cur' - 1 = (9/10) ^ 60 * (cs_compression currentStats_init - 1)"
    using fusionRun_closed_form [of ?c 1 60 currentStats_init 0] by auto
  have "cs_compression cur' = 1 - (9/10) ^ 60"
    using e by (simp add: currentStats_init_def)
  with r have "map_option cs_compression (fusionRun 60 currentStats_init ?c 0)
      = Some (1 - (9/10) ^ 60)" by simp
  moreover have "1 / 1000 < \<bar>(1 - (9/10) ^ 60) - (1::real)\<bar>"
    using pow60 by simp
  ultimately show ?thesis by blast
qed

text \<open>
  C5. A detected hand whose wrist, middle knuckle and middle fingertip coincide has
  \<open>handSize = 0\<close> and \<open>extension = 0\<close>: the division is carried out, the ratio and the
  compression are NaN, and the sample is emitted with \<open>isTracking = true\<close>. When only
  the wrist and the knuckle coincide the ratio is infinite, the compression 0, and the
  sample is emitted with \<open>isTracking = true\<close> as well.
\<close>

theorem degenerate_hand_emits_NaN:
  "predictWebcam (Some [replicate 21 \<lparr>lm_x = 1/2, lm_y = 1/2, lm_z = 0\<rparr>]) =
     Inr \<lparr>hc_compression = NaN, hc_x = 0, hc_y = 0, isTracking = True\<rparr> \<and>
   (case predictWebcam (Some [replicate 21 \<lparr>lm_x = 1/2, lm_y = 1/2, lm_z = 0\<rparr>]) of
      Inl e \<Rightarrow> False
    | Inr d \<Rightarrow> isTracking d \<and> \<not> isFinite (hc_compression d)) \<and>
   predictWebcam (Some [replicate 12 \<lparr>lm_x = 1/2, lm_y = 1/2, lm_z = 0\<rparr>
                          @ [\<lparr>lm_x = 1/2, lm_y = 0, lm_z = 0\<rparr>]]) =
     Inr \<lparr>hc_compression = Num 0, hc_x = 0, hc_y = 0, isTracking = True\<rparr>"
  by (simp add: predictWebcam_def Let_def dist2d_def compressionOfRatio_def nth_append)

text \<open>
  C6. Without a detected hand the estimator emits the sample
  \<open>{compression: 0, x: 0, y: 0, isTracking: false}\<close>, which sets the control cell to
  zero at once. The smoothed state then follows frame by frame: after \<open>n\<close> frames the
  compression is \<open>0.9 ^ n\<close> and each tilt \<open>0.95 ^ n\<close> times its stale value, so a
  nonzero value is never zero after a frame, is strictly smaller in absolute value,
  and tends to 0.
\<close>

theorem no_hand_snap_then_decay:
  "predictWebcam None =
     Inr \<lparr>hc_compression = Num 0, hc_x = 0, hc_y = 0, isTracking = False\<rparr> \<and>
   predictWebcam (Some []) =
     Inr \<lparr>hc_compression = Num 0, hc_x = 0, hc_y = 0, isTracking = False\<rparr> \<and>
   handleHandUpdate \<lparr>hc_compression = Num 0, hc_x = 0, hc_y = 0, isTracking = False\<rparr> controlRef =
     \<lparr>fc_compression = Num 0, fc_tiltX = 0, fc_tiltY = 0\<rparr> \<and>
   (\<exists>cur'. fusionRun n cur \<lparr>fc_compression = Num 0, fc_tiltX = 0, fc_tiltY = 0\<rparr> p = Some cur' \<and>
      cs_compression cur' = (9/10) ^ n * cs_compression cur \<and>
      cs_tiltX cur' = (19/20) ^ n * cs_tiltX cur \<and>
      cs_tiltY cur' = (19/20) ^ n * cs_tiltY cur \<and>
      (cs_compression cur \<noteq> 0 \<longrightarrow> cs_compression cur' \<noteq> 0) \<and>
      (cs_tiltX cur \<noteq> 0 \<longrightarrow> cs_tiltX cur' \<noteq> 0) \<and>
      (cs_tiltY cur \<noteq> 0 \<longrightarrow> cs_tiltY cur' \<noteq> 0) \<and>
      (cs_compression cur \<noteq> 0 \<and> 0 < n \<longrightarrow> \<bar>cs_compression cur'\<bar> < \<bar>cs_compression cur\<bar>)) \<and>
   (\<lambda>n. (9/10) ^ n * cs_compression cur) \<longlonglongrightarrow> 0 \<and>
   (\<lambda>n. (19/20) ^ n * cs_tiltX cur) \<longlonglongrightarrow> 0 \<and>
   (\<lambda>n. (19/20) ^ n * cs_tiltY cur) \<longlonglongrightarrow> 0"
proof -
  let ?z = "\<lparr>fc_compression = Num 0, fc_tiltX = 0, fc_tiltY = 0\<rparr>"
  have a: "predictWebcam None =
     Inr \<lparr>hc_compression = Num 0, hc_x = 0, hc_y = 0, isTracking = False\<rparr>"
    by (simp add: predictWebcam_def)
  have b: "predictWebcam (Some []) =
     Inr \<lparr>hc_compression = Num 0, hc_x = 0, hc_y = 0, isTracking = False\<rparr>"
    by (simp add: predictWebcam_def)
  have c: "handleHandUpdate \<lparr>hc_compression = Num 0, hc_x = 0, hc_y = 0, isTracking = False\<rparr>
      controlRef = ?z"
    by (simp add: handleHandUpdate_def)
  obtain cur' where r: "fusionRun n cur ?z p = Some cur'"
    and e1: "cs_compression cur' = (9/10) ^ n * cs_compression cur"
    and e2: "cs_tiltX cur' = (19/20) ^ n * cs_tiltX cur"
    and e3: "cs_tiltY cur' = (19/20) ^ n * cs_tiltY cur"
    using fusionRun_closed_form [of ?z 0 n cur p] by auto
  have n1: "cs_compression cur' \<noteq> 0" if "cs_compression cur \<noteq> 0"
    using that e1 by simp
  have n2: "cs_tiltX cur' \<noteq> 0" if "cs_tiltX cur \<noteq> 0"
    using that e2 by simp
  have n3: "cs_tiltY cur' \<noteq> 0" if "cs_tiltY cur \<noteq> 0"
    using that e3 by simp
  have lt: "\<bar>cs_compression cur'\<bar> < \<bar>cs_compression cur\<bar>" if "cs_compression cur \<noteq> 0" "0 < n"
  proof -
    have "(9/10 :: real) ^ n < 1" using that(2) by (rule pow_lt_one)
    moreover have "0 < \<bar>cs_compression cur\<bar>" using that(1) by simp
    ultimately have "(9/10) ^ n * \<bar>cs_compression cur\<bar> < 1 * \<bar>cs_compression cur\<bar>"
      by (intro mult_strict_right_mono)
    then show ?thesis unfolding e1 by (simp add: abs_mult)
  qed
  have l1: "(\<lambda>n. (9/10) ^ n * cs_compression cur) \<longlonglongrightarrow> 0"
    by (intro tendsto_mult_left_zero LIMSEQ_realpow_zero) simp_all
  have l2: "(\<lambda>n. (19/20) ^ n * cs_tiltX cur) \<longlonglongrightarrow> 0"
    by (intro tendsto_mult_left_zero LIMSEQ_realpow_zero) simp_all
  have l3: "(\<lambda>n. (19/20) ^ n * cs_tiltY cur) \<longlonglongrightarrow> 0"
    by (intro tendsto_mult_left_zero LIMSEQ_realpow_zero) simp_all
  from a b c r e1 e2 e3 n1 n2 n3 lt l1 l2 l3 show ?thesis by blast
qed

text \<open>
  C6 for two frames after the hand is lost with the smoothed compression at 1.
\<close>

theorem no_hand_snap_then_decay_witness:
  "\<exists>cur'. fusionRun 2 \<lparr>cs_compression = 1, cs_tiltX = 1/2, cs_tiltY = - 1/2\<rparr>
             \<lparr>fc_compression = Num 0, fc_tiltX = 0, fc_tiltY = 0\<rparr> 0 = Some cur' \<and>
          cs_compression cur' = 81/100 \<and> cs_compression cur' \<noteq> 0 \<and>
          \<bar>cs_compression cur'\<bar> < 1"
  using no_hand_snap_then_decay
    [where n = 2 and cur = "\<lparr>cs_compression = 1, cs_tiltX = 1/2, cs_tiltY = - 1/2\<rparr>" and p = 0]
  by (auto simp: power2_eq_square)

text \<open>
  C7. The compression is \<open>1 - clamp((ratio - 0.9) / 0.8, 0, 1)\<close>: 0 for a ratio of
  at least 1.7 and 1 for a ratio of at most 0.9. For a hand of at least 13 landmarks
  with \<open>handSize \<noteq> 0\<close> the emitted sample has this compression at
  \<open>ratio = extension / handSize\<close>, the mirrored \<open>x = (1 - knuckle.x) * 2 - 1\<close>, the
  flipped \<open>y = - (knuckle.y * 2 - 1)\<close> and \<open>isTracking = true\<close>.
\<close>

theorem hand_pose_derivation:
  "compressionOfRatio (Num ratio) = Num (1 - max 0 (min 1 ((ratio - 0.9) / 0.8))) \<and>
   (1.7 \<le> ratio \<longrightarrow> compressionOfRatio (Num ratio) = Num 0) \<and>
   (ratio \<le> 0.9 \<longrightarrow> compressionOfRatio (Num ratio) = Num 1) \<and>
   (12 < length hand \<and> dist2d (hand ! 9) (hand ! 0) \<noteq> 0 \<longrightarrow>
      predictWebcam (Some (hand # others)) =
        Inr \<lparr>hc_compression =
               compressionOfRatio (Num (dist2d (hand ! 12) (hand ! 0) / dist2d (hand ! 9) (hand ! 0))),
             hc_x = (1 - lm_x (hand ! 9)) * 2 - 1,
             hc_y = - (lm_y (hand ! 9) * 2 - 1),
             isTracking = True\<rparr>)"
proof -
  have a: "compressionOfRatio (Num ratio) = Num (1 - max 0 (min 1 ((ratio - 0.9) / 0.8)))"
    by (rule compressionOfRatio_Num)
  have b: "compressionOfRatio (Num ratio) = Num 0" if "1.7 \<le> ratio"
  proof -
    have "1 \<le> (ratio - 0.9) / 0.8" using that by simp
    then show ?thesis unfolding a by (simp add: min_def max_def)
  qed
  have c: "compressionOfRatio (Num ratio) = Num 1" if "ratio \<le> 0.9"
  proof -
    have "(ratio - 0.9) / 0.8 \<le> 0" using that by simp
    then show ?thesis unfolding a by (simp add: min_def max_def)
  qed
  have d: "predictWebcam (Some (hand # others)) =
        Inr \<lparr>hc_compression =
               compressionOfRatio (Num (dist2d (hand ! 12) (hand ! 0) / dist2d (hand ! 9) (hand ! 0))),
             hc_x = (1 - lm_x (hand ! 9)) * 2 - 1,
             hc_y = - (lm_y (hand ! 9) * 2 - 1),
             isTracking = True\<rparr>"
    if "12 < length hand" "dist2d (hand ! 9) (hand ! 0) \<noteq> 0"
    using that by (simp add: predictWebcam_def Let_def)
  from a b c d show ?thesis by blast
qed

text \<open>
  C7 at the ratios 2 and 1/2, and for a hand with the wrist at (0, 1) and every other
  landmark at (0, 0), whose ratio is 1.
\<close>

theorem hand_pose_derivation_witness:
  "compressionOfRatio (Num 2) = Num 0 \<and> compressionOfRatio (Num (1/2)) = Num 1 \<and>
   predictWebcam (Some [\<lparr>lm_x = 0, lm_y = 1, lm_z = 0\<rparr> #
                        replicate 12 \<lparr>lm_x = 0, lm_y = 0, lm_z = 0\<rparr>]) =
     Inr \<lparr>hc_compression = Num (7/8), hc_x = 1, hc_y = 1, isTracking = True\<rparr>"
proof -
  let ?hand = "\<lparr>lm_x = 0, lm_y = 1, lm_z = 0\<rparr> # replicate 12 \<lparr>lm_x = 0, lm_y = 0, lm_z = 0\<rparr>"
  have r: "compressionOfRatio (Num 1) = Num (7/8)"
    by (simp add: compressionOfRatio_def)
  show ?thesis
    using hand_pose_derivation [of 2 ?hand "[]"] hand_pose_derivation [of "1/2" ?hand "[]"]
    by (simp add: dist2d_def r)
qed

text \<open>
  C8. The position attribute created for \<open>strips\<close> strips holds \<open>2 * (strips + 1)\<close>
  vertices. For \<open>strips \<ge> 1\<close> a frame keeps that number and stores, for every boundary
  \<open>i\<close> from 0 to \<open>strips\<close>, the top vertex \<open>(x i, height / 2, z i)\<close> at the index \<open>i\<close>
  and the bottom vertex \<open>(x i, - height / 2, z i)\<close> at the index \<open>i + strips + 1\<close>, where
  \<open>x i\<close> is the re-centred and \<open>z i\<close> the accumulated position of the strip loop.
\<close>

theorem fold_geometry_vertices:
  "length (planeGeometry width height strips) = 2 * (strips + 1) \<and>
   (1 \<le> strips \<and> length positionAttribute = 2 * (strips + 1) \<longrightarrow>
     (let w = stripLoop noiseOffsets time eff (width / real strips) strips 0 walk_init;
          offsetX = - last (xPositions w) / 2;
          out = foldGeometry noiseOffsets width height strips time eff positionAttribute
      in length out = 2 * (strips + 1) \<and>
         length (xPositions w) = strips + 1 \<and> length (zPositions w) = strips + 1 \<and>
         (\<forall>i\<le>strips.
            out ! i = (xPositions w ! i + offsetX, height / 2, zPositions w ! i) \<and>
            out ! (i + strips + 1) = (xPositions w ! i + offsetX, - height / 2, zPositions w ! i))))"
proof -
  have a: "length (planeGeometry width height strips) = 2 * (strips + 1)"
    by (rule planeGeometry_length)
  have b: "(let w = stripLoop noiseOffsets time eff (width / real strips) strips 0 walk_init;
          offsetX = - last (xPositions w) / 2;
          out = foldGeometry noiseOffsets width height strips time eff positionAttribute
      in length out = 2 * (strips + 1) \<and>
         length (xPositions w) = strips + 1 \<and> length (zPositions w) = strips + 1 \<and>
         (\<forall>i\<le>strips.
            out ! i = (xPositions w ! i + offsetX, height / 2, zPositions w ! i) \<and>
            out ! (i + strips + 1) = (xPositions w ! i + offsetX, - height / 2, zPositions w ! i)))"
    if len: "length positionAttribute = 2 * (strips + 1)"
    unfolding Let_def stripLoop_closed walkAt_last
    using len
    by (simp add: foldGeometry_length walkAt_lengths walkAt_nth
        foldGeometry_top [OF len] foldGeometry_bottom [OF len, simplified])
  from a b show ?thesis by blast
qed

text \<open>
  C8 for two strips of a wall of width 4 and height 2.
\<close>

theorem fold_geometry_vertices_witness:
  "length (planeGeometry 4 2 2) = 6 \<and>
   length (foldGeometry [0, 0] 4 2 2 0 0 (planeGeometry 4 2 2)) = 6"
  using fold_geometry_vertices [of 4 2 2 "planeGeometry 4 2 2" "[0, 0]" 0 0]
  by (simp add: Let_def)

text \<open>
  C9, as amended. In every run of the application the state CAPTURING never occurs
  and every transition is IDLE to PROCESSING, PROCESSING to INTERACTIVE or
  INTERACTIVE to IDLE. A run that has reached INTERACTIVE came there from PROCESSING
  and to that from IDLE; in INTERACTIVE the reset is enabled and is the only possible
  step, and it leads to IDLE.
\<close>

theorem app_state_order:
  "run tr \<longrightarrow>
     CAPTURING \<notin> set (map appState tr) \<and>
     set (transitions tr) \<subseteq> {(IDLE, PROCESSING), (PROCESSING, INTERACTIVE), (INTERACTIVE, IDLE)} \<and>
     (appState (hd tr) = INTERACTIVE \<longrightarrow>
        (\<exists>s s0 rest. tl tr = s # s0 # rest \<and> appState s = PROCESSING \<and> appState s0 = IDLE) \<and>
        step (hd tr) (handleReset (hd tr)) \<and>
        (\<forall>s'. step (hd tr) s' \<longrightarrow> appState s' = IDLE))"
proof
  assume r: "run tr"
  from run_invariant [OF r]
  have ne: "tr \<noteq> []" and cons: "\<forall>s \<in> set tr. consistent s"
    and tr: "set (transitions tr) \<subseteq>
      {(IDLE, PROCESSING), (PROCESSING, INTERACTIVE), (INTERACTIVE, IDLE)}"
    by blast+
  have a: "CAPTURING \<notin> set (map appState tr)"
    using cons by (auto simp: consistent_def)
  have b: "(\<exists>s s0 rest. tl tr = s # s0 # rest \<and> appState s = PROCESSING \<and> appState s0 = IDLE) \<and>
        step (hd tr) (handleReset (hd tr)) \<and>
        (\<forall>s'. step (hd tr) s' \<longrightarrow> appState s' = IDLE)"
    if i: "appState (hd tr) = INTERACTIVE"
  proof -
    from r i obtain s tr1 where t1: "tr = hd tr # s # tr1" and r1: "run (s # tr1)"
      by (cases rule: run.cases) (auto simp: app_init_def)
    have "(appState s, appState (hd tr)) \<in> set (transitions tr)"
      by (subst (2) t1) (simp add: transitions_def)
    with tr i have p: "appState s = PROCESSING" by auto
    from r1 p obtain s0 tr2 where t2: "s # tr1 = s # s0 # tr2"
      by (cases rule: run.cases) (auto simp: app_init_def)
    have "(appState s0, appState s) \<in> set (transitions tr)"
      using t2 by (subst t1) (simp add: transitions_def)
    with tr p have p0: "appState s0 = IDLE" by auto
    have c: "consistent (hd tr)" using cons ne by simp
    with i have img: "capturedImage (hd tr) \<noteq> None" and pt: "pendingTimeouts (hd tr) = 0"
      by (auto simp: consistent_def)
    have st: "step (hd tr) (handleReset (hd tr))"
      by (rule step.reset [OF i img])
    have only: "appState s' = IDLE" if "step (hd tr) s'" for s'
      using that i pt by (cases rule: step.cases) (simp_all add: handleReset_def)
    from t1 t2 p p0 st only show ?thesis
      by (metis list.sel(3))
  qed
  from a tr b
  show "CAPTURING \<notin> set (map appState tr) \<and>
     set (transitions tr) \<subseteq> {(IDLE, PROCESSING), (PROCESSING, INTERACTIVE), (INTERACTIVE, IDLE)} \<and>
     (appState (hd tr) = INTERACTIVE \<longrightarrow>
        (\<exists>s s0 rest. tl tr = s # s0 # rest \<and> appState s = PROCESSING \<and> appState s0 = IDLE) \<and>
        step (hd tr) (handleReset (hd tr)) \<and>
        (\<forall>s'. step (hd tr) s' \<longrightarrow> appState s' = IDLE))"
    by blast
qed

text \<open>
  C9, as amended, on the run of one capture followed by the timeout.
\<close>

theorem app_state_order_witness:
  "CAPTURING \<notin> set (map appState
     [timeoutCallback (handleCapture ''selfie'' app_init),
      handleCapture ''selfie'' app_init, app_init]) \<and>
   step (timeoutCallback (handleCapture ''selfie'' app_init))
     (handleReset (timeoutCallback (handleCapture ''selfie'' app_init)))"
  using app_state_order
    [of "[timeoutCallback (handleCapture ''selfie'' app_init),
          handleCapture ''selfie'' app_init, app_init]"]
    example_run
  by (simp add: timeoutCallback_def)

text \<open>
  C9 as stated fails on the run of one capture followed by the timeout: it reaches
  INTERACTIVE and no state of it is CAPTURING.
\<close>

theorem interactive_without_capturing:
  "run [timeoutCallback (handleCapture ''selfie'' app_init),
        handleCapture ''selfie'' app_init, app_init] \<and>
   appState (timeoutCallback (handleCapture ''selfie'' app_init)) = INTERACTIVE \<and>
   CAPTURING \<notin> set (map appState
     [timeoutCallback (handleCapture ''selfie'' app_init),
      handleCapture ''selfie'' app_init, app_init])"
  using example_run by (simp add: timeoutCallback_def handleCapture_def app_init_def)

text \<open>
  C10. A frame that starts from a smoothed compression in [0,1], with a hand target in
  [0,1] and the pointer in [-1,1], has an effective compression in [0,1] and leaves the
  smoothed compression in [0,1]. For an effective compression in [0,1], a noise table
  of \<open>strips\<close> entries in [0,1), a positive width and \<open>strips \<ge> 1\<close>, every fold angle is
  below \<open>\<pi>/2\<close> in absolute value, every step \<open>dx = segWidth * cos angle\<close> is positive,
  and the \<open>strips + 1\<close> boundary x-positions are strictly increasing.
\<close>

theorem strip_boundaries_increase:
  "(0 \<le> cs_compression cur \<and> cs_compression cur \<le> 1 \<and>
    fc_compression controlRef = Num target \<and> 0 \<le> target \<and> target \<le> 1 \<and> \<bar>pointer_x\<bar> \<le> 1 \<longrightarrow>
      (\<exists>cur' e. fusion cur controlRef pointer_x = Some (cur', e) \<and> 0 \<le> e \<and> e \<le> 1 \<and>
         0 \<le> cs_compression cur' \<and> cs_compression cur' \<le> 1)) \<and>
   (0 \<le> eff \<and> eff \<le> 1 \<and> length noiseOffsets = strips \<and>
    (\<forall>n \<in> set noiseOffsets. 0 \<le> n \<and> n < 1) \<and> 0 < width \<and> 1 \<le> strips \<longrightarrow>
      (\<forall>i<strips. \<bar>angle eff (noiseOffsets ! i) time i\<bar> < pi / 2 \<and>
         0 < width / real strips * cos (angle eff (noiseOffsets ! i) time i)) \<and>
      length (xPositions (stripLoop noiseOffsets time eff (width / real strips) strips 0 walk_init))
        = strips + 1 \<and>
      sorted_wrt (<)
        (xPositions (stripLoop noiseOffsets time eff (width / real strips) strips 0 walk_init)))"
proof -
  have a: "\<exists>cur' e. fusion cur controlRef pointer_x = Some (cur', e) \<and> 0 \<le> e \<and> e \<le> 1 \<and>
         0 \<le> cs_compression cur' \<and> cs_compression cur' \<le> 1"
    if "0 \<le> cs_compression cur" "cs_compression cur \<le> 1"
      "fc_compression controlRef = Num target" "0 \<le> target" "target \<le> 1" "\<bar>pointer_x\<bar> \<le> 1"
  proof -
    let ?s = "smooth cur target (fc_tiltX controlRef) (fc_tiltY controlRef)"
    have r: "0 \<le> cs_compression ?s \<and> cs_compression ?s \<le> 1"
      using lerp_range [of "cs_compression cur" target "0.1"] that by (simp add: smooth_def)
    then have "0 \<le> effectiveCompression (cs_compression ?s) pointer_x \<and>
        effectiveCompression (cs_compression ?s) pointer_x \<le> 1"
      using that(6) by (simp add: effectiveCompression_def mouseCompression_def)
    with r fusion_Num [OF that(3), of cur pointer_x] show ?thesis by blast
  qed
  have b: "(\<forall>i<strips. \<bar>angle eff (noiseOffsets ! i) time i\<bar> < pi / 2 \<and>
         0 < width / real strips * cos (angle eff (noiseOffsets ! i) time i)) \<and>
      length (xPositions (stripLoop noiseOffsets time eff (width / real strips) strips 0 walk_init))
        = strips + 1 \<and>
      sorted_wrt (<)
        (xPositions (stripLoop noiseOffsets time eff (width / real strips) strips 0 walk_init))"
    if h: "0 \<le> eff" "eff \<le> 1" "length noiseOffsets = strips"
      "\<forall>n \<in> set noiseOffsets. 0 \<le> n \<and> n < 1" "0 < width" "1 \<le> strips"
  proof -
    have sw: "0 < width / real strips" using h(5,6) by simp
    have ang: "\<bar>angle eff (noiseOffsets ! i) time i\<bar> < pi / 2 \<and>
         0 < width / real strips * cos (angle eff (noiseOffsets ! i) time i)" if "i < strips" for i
    proof -
      have "noiseOffsets ! i \<in> set noiseOffsets" using that h(3) by simp
      then have "0 \<le> noiseOffsets ! i" using h(4) by blast
      from cos_angle_pos [OF h(1) this, of time i]
      have lt: "\<bar>angle eff (noiseOffsets ! i) time i\<bar> < pi / 2"
        and c: "0 < cos (angle eff (noiseOffsets ! i) time i)" by blast+
      from sw c have "0 < width / real strips * cos (angle eff (noiseOffsets ! i) time i)"
        by (rule mult_pos_pos)
      with lt show ?thesis by blast
    qed
    have srt: "sorted_wrt (<) (xPositions (walkAt noiseOffsets time eff (width / real strips) strips))"
      unfolding sorted_wrt_iff_nth_less
    proof (intro allI impI)
      fix i j
      assume ij: "i < j"
        and j: "j < length (xPositions (walkAt noiseOffsets time eff (width / real strips) strips))"
      then have js: "j \<le> strips" by (simp add: walkAt_lengths)
      have "\<forall>l<j. 0 < width / real strips * cos (angle eff (noiseOffsets ! l) time l)"
        using ang js by simp
      then have "xAt noiseOffsets time eff (width / real strips) i
          < xAt noiseOffsets time eff (width / real strips) j"
        using ij by (rule xAt_strict_mono)
      then show "xPositions (walkAt noiseOffsets time eff (width / real strips) strips) ! i
          < xPositions (walkAt noiseOffsets time eff (width / real strips) strips) ! j"
        using ij js by (simp add: walkAt_nth)
    qed
    from ang srt show ?thesis
      by (simp add: stripLoop_closed walkAt_lengths)
  qed
  from a b show ?thesis by blast
qed

text \<open>
  C10 for two strips of a wall of width 4 at effective compression 1/2.
\<close>

theorem strip_boundaries_increase_witness:
  "(\<exists>cur' e. fusion currentStats_init \<lparr>fc_compression = Num 1, fc_tiltX = 0, fc_tiltY = 0\<rparr> (1/2)
       = Some (cur', e) \<and> 0 \<le> e \<and> e \<le> 1) \<and>
   sorted_wrt (<) (xPositions (stripLoop [1/4, 1/2] 0 (1/2) (4 / real 2) 2 0 walk_init))"
  using strip_boundaries_increase
    [of currentStats_init "\<lparr>fc_compression = Num 1, fc_tiltX = 0, fc_tiltY = 0\<rparr>" 1 "1/2"
        "1/2" "[1/4, 1/2]" 2 4 0]
  by (simp add: currentStats_init_def) blast

end
